theory Spec2Isabelle
  imports Complex_Main "HOL-Library.Log_Nat" "HOL-Library.AList" "HOL-Library.Word"
begin

section \<open>Python values and exceptions\<close>

text \<open>
  The handler of \<^verbatim>\<open>lambda_function.py\<close> is modelled as a function on an explicit
  world (object store, metadata table, notification topic). Every exception the source
  can raise is a value: \<open>Inl e\<close> of a sum type. The exceptions of the collaborators
  (boto3, Pillow) are not distinguished by the source, which catches \<^verbatim>\<open>Exception\<close>
  only; they are \<open>ExternalError\<close> with a message.
\<close>

datatype py_error = ZeroDivisionError | OverflowError | ExternalError string

definition ebind :: "py_error + 'a \<Rightarrow> ('a \<Rightarrow> py_error + 'b) \<Rightarrow> py_error + 'b" where
  "ebind m f = (case m of Inl e \<Rightarrow> Inl e | Inr x \<Rightarrow> f x)"

section \<open>Python floats\<close>

text \<open>
  \<^verbatim>\<open>original_width / original_height\<close> is Python's true division: its result is the
  IEEE 754 binary64 number nearest to the exact quotient (ties to even), and so are
  \<^verbatim>\<open>MAX_WIDTH / aspect_ratio\<close> and \<^verbatim>\<open>MAX_HEIGHT * aspect_ratio\<close>. A finite double
  is modelled by the rational it denotes. The sign of zero is not kept: the source only
  compares, multiplies and truncates its floats, and divides by one that is greater
  than 1. No operation of the source yields a NaN.
\<close>

datatype pyfloat = Finite rat | PosInf | NegInf

definition round_half_even :: "rat \<Rightarrow> int" where
  "round_half_even t =
     (let n = \<lfloor>t\<rfloor>; r = t - of_int n
      in if r < 1 / 2 then n else if 1 / 2 < r then n + 1 else if even n then n else n + 1)"

text \<open>\<open>binade x\<close> is the exponent \<open>e\<close> with \<open>2\<^sup>e \<le> x < 2\<^sup>e\<^sup>+\<^sup>1\<close>, for positive \<open>x\<close>.\<close>

definition binade :: "rat \<Rightarrow> int" where
  "binade x =
     (let (a, b) = quotient_of x; d = bitlen a - bitlen b
      in if 2 powi d \<le> x then d else d - 1)"

text \<open>
  The spacing of the doubles around \<open>x\<close> is \<open>2\<close> to the power \<open>quantum x\<close>: 53 significant
  bits, and the fixed spacing \<open>2\<^sup>-\<^sup>1\<^sup>0\<^sup>7\<^sup>4\<close> of the subnormal numbers at the bottom.
\<close>

definition quantum :: "rat \<Rightarrow> int" where
  "quantum x = max (binade x - 52) (- 1074)"

definition nearest_double :: "rat \<Rightarrow> rat" where
  "nearest_double x = of_int (round_half_even (x / 2 powi quantum x)) * 2 powi quantum x"

definition ieee_round :: "rat \<Rightarrow> pyfloat" where
  "ieee_round x =
     (if x = 0 then Finite 0
      else let y = nearest_double \<bar>x\<bar>
           in if 2 ^ 1024 \<le> y then (if 0 < x then PosInf else NegInf)
              else Finite (sgn x * y))"

text \<open>
  \<^verbatim>\<open>a / b\<close> on two ints: ZeroDivisionError for \<open>b = 0\<close>, OverflowError
  ("integer division result too large for a float") when the rounded quotient is out of
  range, the correctly rounded quotient otherwise.
\<close>

definition py_truediv :: "int \<Rightarrow> int \<Rightarrow> py_error + rat" where
  "py_truediv a b =
     (if b = 0 then Inl ZeroDivisionError
      else case ieee_round (of_int a / of_int b) of
             Finite q \<Rightarrow> Inr q
           | _ \<Rightarrow> Inl OverflowError)"

text \<open>
  An int operand of a mixed operation is converted to a float first; the conversion
  raises OverflowError ("int too large to convert to float") out of range.
\<close>

definition py_float :: "int \<Rightarrow> py_error + rat" where
  "py_float n = (case ieee_round (of_int n) of Finite q \<Rightarrow> Inr q | _ \<Rightarrow> Inl OverflowError)"

text \<open>\<^verbatim>\<open>n / y\<close> and \<^verbatim>\<open>n * y\<close> for an int \<open>n\<close> and a float \<open>y\<close>.\<close>

definition int_div_float :: "int \<Rightarrow> rat \<Rightarrow> py_error + pyfloat" where
  "int_div_float n y =
     ebind (py_float n) (\<lambda>x. if y = 0 then Inl ZeroDivisionError else Inr (ieee_round (x / y)))"

definition int_mul_float :: "int \<Rightarrow> rat \<Rightarrow> py_error + pyfloat" where
  "int_mul_float n y = ebind (py_float n) (\<lambda>x. Inr (ieee_round (x * y)))"

text \<open>\<^verbatim>\<open>int(x)\<close> truncates towards zero and raises OverflowError on an infinity.\<close>

definition py_int :: "pyfloat \<Rightarrow> py_error + int" where
  "py_int x = (case x of Finite q \<Rightarrow> Inr (if 0 \<le> q then \<lfloor>q\<rfloor> else \<lceil>q\<rceil>) | _ \<Rightarrow> Inl OverflowError)"

section \<open>The dimension computation\<close>

text \<open>
  Lines 56 to 66 of \<^verbatim>\<open>lambda_handler\<close>, with \<^verbatim>\<open>MAX_WIDTH\<close> and \<^verbatim>\<open>MAX_HEIGHT\<close>
  as parameters:
  \<^verbatim>\<open>
  aspect_ratio = original_width / original_height
  if original_width > MAX_WIDTH or original_height > MAX_HEIGHT:
      if aspect_ratio > 1:  # Landscape
          new_width = MAX_WIDTH
          new_height = int(MAX_WIDTH / aspect_ratio)
      else:  # Portrait
          new_height = MAX_HEIGHT
          new_width = int(MAX_HEIGHT * aspect_ratio)
  else:
      new_width, new_height = original_width, original_height
  \<close>
  The result is the pair \<open>(new_width, new_height)\<close>.
\<close>

definition new_dimensions :: "int \<Rightarrow> int \<Rightarrow> int \<Rightarrow> int \<Rightarrow> py_error + (int \<times> int)" where
  "new_dimensions original_width original_height max_width max_height =
     ebind (py_truediv original_width original_height) (\<lambda>aspect_ratio.
       if original_width > max_width \<or> original_height > max_height then
         if aspect_ratio > 1 then
           ebind (int_div_float max_width aspect_ratio) (\<lambda>q.
           ebind (py_int q) (\<lambda>new_height. Inr (max_width, new_height)))
         else
           ebind (int_mul_float max_height aspect_ratio) (\<lambda>q.
           ebind (py_int q) (\<lambda>new_width. Inr (new_width, max_height)))
       else Inr (original_width, original_height))"

section \<open>The dimension rule as the specification words it\<close>

text \<open>
  Section 4.1 of the specification gives the rule over exact quotients: no scaling when
  both sizes are within the maxima; otherwise \<open>aspect_ratio = original_width / original_height\<close>,
  and \<open>(max_width, floor (max_width / aspect_ratio))\<close> when \<open>aspect_ratio > 1\<close>,
  \<open>(floor (max_height * aspect_ratio), max_height)\<close> when not. This second definition
  follows those words, with rational arithmetic, to be compared with \<open>new_dimensions\<close>.
\<close>

definition spec_dimensions :: "int \<Rightarrow> int \<Rightarrow> int \<Rightarrow> int \<Rightarrow> int \<times> int" where
  "spec_dimensions original_width original_height max_width max_height =
     (if original_width \<le> max_width \<and> original_height \<le> max_height
      then (original_width, original_height)
      else let aspect_ratio = (of_int original_width / of_int original_height :: rat)
           in if aspect_ratio > 1
              then (max_width, \<lfloor>of_int max_width / aspect_ratio\<rfloor>)
              else (\<lfloor>of_int max_height * aspect_ratio\<rfloor>, max_height))"

section \<open>The collaborators\<close>

text \<open>
  The handler talks to an object store (S3), a table (DynamoDB), a topic (SNS) and an
  image library (Pillow), and reads a clock and a random identifier. None of them is code
  of the repository. They are modelled by what the handler observes of them.

  Bytes are lists of octets; a Python dict is an association list in insertion order,
  with the values the handler stores.
\<close>

type_synonym bytes = "8 word list"

datatype pyval = Str string | Num int | Bool bool

type_synonym pydict = "(string \<times> pyval) list"

text \<open>\<^verbatim>\<open>d.update(e)\<close>: the entries of \<open>e\<close> are stored in \<open>d\<close> one after the other.\<close>

definition dict_update :: "pydict \<Rightarrow> pydict \<Rightarrow> pydict" where
  "dict_update d e = fold (\<lambda>(k, v). AList.update k v) e d"

text \<open>
  An object of the store: its bytes, and the \<^verbatim>\<open>ContentType\<close> of the response of
  \<^verbatim>\<open>get_object\<close>, when the response has one.
\<close>

record s3_object =
  body :: bytes
  content_type :: "string option"

text \<open>
  What the handler reads of a Pillow image: \<^verbatim>\<open>img.size\<close> and \<^verbatim>\<open>img.format\<close>. The
  pixels are opaque to it.
\<close>

record pil_image =
  img_size :: "int \<times> int"
  img_format :: "string option"
  raster :: bytes

text \<open>
  The text of a notification is kept as the template it is built from and the values
  interpolated into it: lines 152 to 172 (resized), 174 to 185 (processed) and line 214
  (failed, with the error and the time). The subjects are kept without their emoji.
\<close>

datatype message_text =
    ImageResized pydict
  | ImageProcessed pydict
  | ProcessingFailed py_error string

text \<open>
  The calls that leave the process, with their arguments. Any of them can raise, for
  reasons outside the handler (network, permissions, throttling): the environment's
  \<open>fault\<close> says, for the number of calls made so far and the call, whether it raises and
  what.
\<close>

datatype call =
    GetObject string string
  | PutObject string string bytes string
  | CopyObject string string string string string
  | PutItem string pydict
  | Publish string string message_text

text \<open>
  The world the handler changes: the objects of the store by bucket and key, the items put
  into tables (table name and item, oldest first), the messages published (topic, subject,
  text, oldest first), and the number of calls made.
\<close>

record world =
  s3 :: "string \<times> string \<Rightarrow> s3_object option"
  table_items :: "(string \<times> pydict) list"
  published :: "(string \<times> string \<times> message_text) list"
  ticks :: nat

text \<open>
  What an invocation does not change: the configuration read from the process environment
  (lines 11 to 15), whether \<^verbatim>\<open>from PIL import Image\<close> succeeds, what Pillow does
  (\<^verbatim>\<open>Image.open\<close>, \<^verbatim>\<open>resize\<close> with LANCZOS, \<^verbatim>\<open>save\<close> with quality 85 and
  optimize), the faults, and the values of \<^verbatim>\<open>uuid.uuid4()\<close> and
  \<^verbatim>\<open>datetime.utcnow().isoformat()\<close> at each call.
\<close>

record env =
  RESIZED_BUCKET :: string
  DYNAMODB_TABLE :: string
  SNS_TOPIC_ARN :: string
  MAX_WIDTH :: int
  MAX_HEIGHT :: int
  pillow_importable :: bool
  image_open :: "bytes \<Rightarrow> py_error + pil_image"
  image_resize :: "pil_image \<Rightarrow> int \<times> int \<Rightarrow> py_error + pil_image"
  image_save :: "pil_image \<Rightarrow> string \<Rightarrow> py_error + bytes"
  fault :: "nat \<Rightarrow> call \<Rightarrow> py_error option"
  uuid4 :: "nat \<Rightarrow> string"
  utcnow :: "nat \<Rightarrow> string"

definition tick :: "world \<Rightarrow> world" where
  "tick w = w\<lparr>ticks := Suc (ticks w)\<rparr>"

text \<open>
  \<^verbatim>\<open>get_object\<close> with the read of its body; \<^verbatim>\<open>put_object\<close>; \<^verbatim>\<open>copy_object\<close>,
  which stores the bytes of the source object under the destination key, with the content
  type of the request (the source's own, whenever the source has one);
  \<^verbatim>\<open>put_item\<close>; \<^verbatim>\<open>publish\<close>.
\<close>

definition s3_get_object :: "env \<Rightarrow> string \<Rightarrow> string \<Rightarrow> world \<Rightarrow> (py_error + s3_object) \<times> world" where
  "s3_get_object env bucket key w =
     (case fault env (ticks w) (GetObject bucket key) of
        Some e \<Rightarrow> (Inl e, tick w)
      | None \<Rightarrow>
          (case s3 w (bucket, key) of
             None \<Rightarrow> (Inl (ExternalError ''NoSuchKey''), tick w)
           | Some obj \<Rightarrow> (Inr obj, tick w)))"

definition s3_put_object ::
  "env \<Rightarrow> string \<Rightarrow> string \<Rightarrow> bytes \<Rightarrow> string \<Rightarrow> world \<Rightarrow> (py_error + unit) \<times> world" where
  "s3_put_object env bucket key content ctype w =
     (case fault env (ticks w) (PutObject bucket key content ctype) of
        Some e \<Rightarrow> (Inl e, tick w)
      | None \<Rightarrow>
          (Inr (), tick (w\<lparr>s3 := (s3 w)((bucket, key) \<mapsto>
                            \<lparr>body = content, content_type = Some ctype\<rparr>)\<rparr>)))"

definition s3_copy_object ::
  "env \<Rightarrow> string \<Rightarrow> string \<Rightarrow> string \<Rightarrow> string \<Rightarrow> string \<Rightarrow> world \<Rightarrow> (py_error + unit) \<times> world" where
  "s3_copy_object env src_bucket src_key bucket key ctype w =
     (case fault env (ticks w) (CopyObject src_bucket src_key bucket key ctype) of
        Some e \<Rightarrow> (Inl e, tick w)
      | None \<Rightarrow>
          (case s3 w (src_bucket, src_key) of
             None \<Rightarrow> (Inl (ExternalError ''NoSuchKey''), tick w)
           | Some obj \<Rightarrow>
               (Inr (), tick (w\<lparr>s3 := (s3 w)((bucket, key) \<mapsto>
                                 \<lparr>body = body obj, content_type = Some ctype\<rparr>)\<rparr>))))"

definition table_put_item :: "env \<Rightarrow> string \<Rightarrow> pydict \<Rightarrow> world \<Rightarrow> (py_error + unit) \<times> world" where
  "table_put_item env table item w =
     (case fault env (ticks w) (PutItem table item) of
        Some e \<Rightarrow> (Inl e, tick w)
      | None \<Rightarrow> (Inr (), tick (w\<lparr>table_items := table_items w @ [(table, item)]\<rparr>)))"

definition sns_publish ::
  "env \<Rightarrow> string \<Rightarrow> string \<Rightarrow> message_text \<Rightarrow> world \<Rightarrow> (py_error + unit) \<times> world" where
  "sns_publish env topic subject msg w =
     (case fault env (ticks w) (Publish topic subject msg) of
        Some e \<Rightarrow> (Inl e, tick w)
      | None \<Rightarrow> (Inr (), tick (w\<lparr>published := published w @ [(topic, subject, msg)]\<rparr>)))"

definition uuid4_call :: "env \<Rightarrow> world \<Rightarrow> string \<times> world" where
  "uuid4_call env w = (uuid4 env (ticks w), tick w)"

definition utcnow_call :: "env \<Rightarrow> world \<Rightarrow> string \<times> world" where
  "utcnow_call env w = (utcnow env (ticks w), tick w)"

text \<open>
  \<^verbatim>\<open>os.path.splitext\<close> (posixpath): the extension starts at the last dot of the last
  path component, leading dots of the component apart.
\<close>

definition splitext :: "string \<Rightarrow> string \<times> string" where
  "splitext p =
     (let base = rev (takeWhile (\<lambda>c. c \<noteq> CHR ''/'') (rev p));
          dir = rev (dropWhile (\<lambda>c. c \<noteq> CHR ''/'') (rev p));
          dots = takeWhile (\<lambda>c. c = CHR ''.'') base;
          rest = dropWhile (\<lambda>c. c = CHR ''.'') base
      in if CHR ''.'' \<in> set rest
         then (dir @ dots @ rev (tl (dropWhile (\<lambda>c. c \<noteq> CHR ''.'') (rev rest))),
               CHR ''.'' # rev (takeWhile (\<lambda>c. c \<noteq> CHR ''.'') (rev rest)))
         else (p, []))"

text \<open>Line 41: \<^verbatim>\<open>response.get('ContentType', 'image/jpeg')\<close>.\<close>

definition response_content_type :: "s3_object \<Rightarrow> string" where
  "response_content_type response =
     (case content_type response of None \<Rightarrow> ''image/jpeg'' | Some c \<Rightarrow> c)"

text \<open>Lines 43 and 44: the destination key.\<close>

definition resized_key :: "string \<Rightarrow> string" where
  "resized_key object_key = (let (name, ext) = splitext object_key in name @ ''_resized'' @ ext)"

section \<open>The handler\<close>

text \<open>
  An event is the list \<^verbatim>\<open>event['Records']\<close> of an S3 notification; of each record the
  handler reads the bucket name and the object key.
\<close>

record s3_event_record =
  bucket_name :: string
  object_key :: string

text \<open>
  Every function below returns the result of the Python code, an exception (\<open>Inl\<close>) or a
  value, together with the world it leaves: what was written before an exception stays
  written. The \<^verbatim>\<open>print\<close> calls are left out, but for the one of line 91, whose
  f-string divides by \<open>original_size\<close> and raises ZeroDivisionError for an empty object.
  (The lengths of Python bytes are below \<open>2\<^sup>6\<^sup>3\<close>, so the other quotients of the messages
  are within the range of a double.)

  Lines 50 to 98, the body of the inner \<^verbatim>\<open>try\<close>: the result is \<open>resized_size\<close> and
  \<open>dimensions\<close>.
\<close>

definition resize_and_upload ::
  "env \<Rightarrow> bytes \<Rightarrow> string \<Rightarrow> string \<Rightarrow> world \<Rightarrow> (py_error + nat \<times> pydict) \<times> world" where
  "resize_and_upload env image_content new_key ctype w =
     (case image_open env image_content of
        Inl e \<Rightarrow> (Inl e, w)
      | Inr img \<Rightarrow>
          (let (original_width, original_height) = img_size img
           in case new_dimensions original_width original_height (MAX_WIDTH env) (MAX_HEIGHT env) of
                Inl e \<Rightarrow> (Inl e, w)
              | Inr (new_width, new_height) \<Rightarrow>
                  (case image_resize env img (new_width, new_height) of
                     Inl e \<Rightarrow> (Inl e, w)
                   | Inr resized_img \<Rightarrow>
                       (let fmt = (case img_format img of
                                     None \<Rightarrow> ''JPEG''
                                   | Some f \<Rightarrow> if f = [] then ''JPEG'' else f)
                        in case image_save env resized_img fmt of
                             Inl e \<Rightarrow> (Inl e, w)
                           | Inr resized_content \<Rightarrow>
                               (case s3_put_object env (RESIZED_BUCKET env) new_key
                                       resized_content ctype w of
                                  (Inl e, w') \<Rightarrow> (Inl e, w')
                                | (Inr u, w') \<Rightarrow>
                                    if length image_content = 0
                                    then (Inl ZeroDivisionError, w')
                                    else (Inr (length resized_content,
                                            [(''original_width'', Num original_width),
                                             (''original_height'', Num original_height),
                                             (''resized_width'', Num new_width),
                                             (''resized_height'', Num new_height)]), w'))))))"

text \<open>
  Lines 47 to 121: resize when Pillow is there; copy the original when it is not, or when
  the resize raised (\<^verbatim>\<open>except Exception as resize_error\<close>). An exception of the copy
  is not caught here.
\<close>

definition store_image ::
  "env \<Rightarrow> bool \<Rightarrow> string \<Rightarrow> string \<Rightarrow> bytes \<Rightarrow> string \<Rightarrow> string \<Rightarrow> world
     \<Rightarrow> (py_error + nat \<times> pydict) \<times> world" where
  "store_image env pillow_available source_bucket key image_content new_key ctype w =
     (let copy = (\<lambda>w0. case s3_copy_object env source_bucket key (RESIZED_BUCKET env) new_key
                            ctype w0 of
                     (Inl e, w') \<Rightarrow> (Inl e, w')
                   | (Inr u, w') \<Rightarrow> (Inr (length image_content, []), w'))
      in if pillow_available
         then (case resize_and_upload env image_content new_key ctype w of
                 (Inr r, w') \<Rightarrow> (Inr r, w')
               | (Inl resize_error, w') \<Rightarrow> copy w')
         else copy w)"

text \<open>
  Lines 148 to 193: the notification of a processed object, when a topic is configured.
  Line 151 divides by \<open>original_size\<close>. The publish call is not in a \<^verbatim>\<open>try\<close> of its
  own.
\<close>

definition notify_success ::
  "env \<Rightarrow> bool \<Rightarrow> string \<Rightarrow> string \<Rightarrow> nat \<Rightarrow> nat \<Rightarrow> pydict \<Rightarrow> string \<Rightarrow> world
     \<Rightarrow> (py_error + unit) \<times> world" where
  "notify_success env pillow_available key new_key original_size resized_size dimensions
       image_id w =
     (if SNS_TOPIC_ARN env \<noteq> []
      then if pillow_available \<and> dimensions \<noteq> []
           then if original_size = 0 then (Inl ZeroDivisionError, w)
                else (let (now, w1) = utcnow_call env w
                      in sns_publish env (SNS_TOPIC_ARN env) ''Image Processing Complete''
                           (ImageResized
                              ([(''object_key'', Str key), (''new_key'', Str new_key)]
                               @ dimensions
                               @ [(''original_size'', Num (int original_size)),
                                  (''resized_size'', Num (int resized_size)),
                                  (''RESIZED_BUCKET'', Str (RESIZED_BUCKET env)),
                                  (''image_id'', Str image_id),
                                  (''time'', Str now)])) w1)
           else (let (now, w1) = utcnow_call env w
                 in sns_publish env (SNS_TOPIC_ARN env) ''Image Processing Complete''
                      (ImageProcessed
                         [(''object_key'', Str key), (''new_key'', Str new_key),
                          (''original_size'', Num (int original_size)),
                          (''RESIZED_BUCKET'', Str (RESIZED_BUCKET env)),
                          (''image_id'', Str image_id),
                          (''time'', Str now)]) w1)
      else (Inr (), w))"

text \<open>
  Lines 32 to 195, the body of the loop for one record: fetch, store, write the metadata
  item (the status is decided by \<open>pillow_available\<close>, line 137; the dimensions are added
  when there are any, lines 142 and 143), notify.
\<close>

definition process_record ::
  "env \<Rightarrow> bool \<Rightarrow> s3_event_record \<Rightarrow> world \<Rightarrow> (py_error + unit) \<times> world" where
  "process_record env pillow_available record w =
     (let source_bucket = bucket_name record; key = object_key record
      in case s3_get_object env source_bucket key w of
           (Inl e, w1) \<Rightarrow> (Inl e, w1)
         | (Inr response, w1) \<Rightarrow>
             (let image_content = body response;
                  original_size = length image_content;
                  ctype = response_content_type response;
                  new_key = resized_key key
              in case store_image env pillow_available source_bucket key image_content
                        new_key ctype w1 of
                   (Inl e, w2) \<Rightarrow> (Inl e, w2)
                 | (Inr (resized_size, dimensions), w2) \<Rightarrow>
                     (let (image_id, w3) = uuid4_call env w2;
                          (now, w4) = utcnow_call env w3;
                          metadata_item =
                            [(''image_id'', Str image_id),
                             (''original_bucket'', Str source_bucket),
                             (''original_key'', Str key),
                             (''processed_bucket'', Str (RESIZED_BUCKET env)),
                             (''processed_key'', Str new_key),
                             (''original_size'', Num (int original_size)),
                             (''resized_size'', Num (int resized_size)),
                             (''content_type'', Str ctype),
                             (''processed_at'', Str now),
                             (''status'', Str (if pillow_available then ''resized'' else ''copied'')),
                             (''pillow_used'', Bool pillow_available)];
                          metadata_item = (if dimensions \<noteq> []
                                           then dict_update metadata_item dimensions
                                           else metadata_item)
                      in case table_put_item env (DYNAMODB_TABLE env) metadata_item w4 of
                           (Inl e, w5) \<Rightarrow> (Inl e, w5)
                         | (Inr u, w5) \<Rightarrow>
                             notify_success env pillow_available key new_key original_size
                               resized_size dimensions image_id w5)))"

text \<open>Line 31: the loop over the records stops at the first exception.\<close>

fun process_records ::
  "env \<Rightarrow> bool \<Rightarrow> s3_event_record list \<Rightarrow> world \<Rightarrow> (py_error + unit) \<times> world" where
  "process_records env pillow_available [] w = (Inr (), w)"
| "process_records env pillow_available (record # records) w =
     (case process_record env pillow_available record w of
        (Inl e, w') \<Rightarrow> (Inl e, w')
      | (Inr u, w') \<Rightarrow> process_records env pillow_available records w')"

text \<open>
  Lines 208 to 217: the failure notification, when a topic is configured; an exception of
  this publish call is caught and dropped.
\<close>

definition notify_failure :: "env \<Rightarrow> py_error \<Rightarrow> world \<Rightarrow> world" where
  "notify_failure env e w =
     (if SNS_TOPIC_ARN env \<noteq> []
      then (let (now, w1) = utcnow_call env w
            in snd (sns_publish env (SNS_TOPIC_ARN env) ''Image Processing Failed''
                      (ProcessingFailed e now) w1))
      else w)"

text \<open>
  Lines 17 to 219: the handler returns status 200 with the message and the Pillow flag,
  or notifies the failure and raises the exception again (\<^verbatim>\<open>raise e\<close>).
\<close>

record response =
  statusCode :: int
  body_message :: string
  body_pillow_available :: bool

definition lambda_handler ::
  "env \<Rightarrow> s3_event_record list \<Rightarrow> world \<Rightarrow> (py_error + response) \<times> world" where
  "lambda_handler env event w =
     (let pillow_available = pillow_importable env
      in case process_records env pillow_available event w of
           (Inr u, w') \<Rightarrow>
             (Inr \<lparr>statusCode = 200,
                   body_message = ''Image processing completed successfully'',
                   body_pillow_available = pillow_available\<rparr>, w')
         | (Inl e, w') \<Rightarrow> (Inl e, notify_failure env e w'))"

section \<open>Example environments\<close>

text \<open>
  Concrete environments, worlds and events, on which the handler is evaluated below.

  In \<open>example_env\<close> Pillow is importable and nothing fails: every object decodes to a
  400 x 300 PNG, a resize to a size below 1 raises as Pillow's does, and the maxima are
  the defaults 800 x 600. The others differ from it in one field: an object that does
  not decode, an object that decodes to 1000 x 1, an image that cannot be saved, Pillow
  missing, and, with Pillow missing, every publish call raising. The world holds one
  object of three bytes, \<open>cat.jpg\<close> in the bucket \<open>source\<close>.
\<close>

definition no_fault :: "nat \<Rightarrow> call \<Rightarrow> py_error option" where
  "no_fault n c = None"

definition publish_fault :: "nat \<Rightarrow> call \<Rightarrow> py_error option" where
  "publish_fault n c =
     (case c of Publish topic subject msg \<Rightarrow> Some (ExternalError ''publish failed'') | _ \<Rightarrow> None)"

definition png_400_300 :: pil_image where
  "png_400_300 = \<lparr>img_size = (400, 300), img_format = Some ''PNG'', raster = [7, 7]\<rparr>"

definition example_env :: env where
  "example_env =
     \<lparr>RESIZED_BUCKET = ''resized'', DYNAMODB_TABLE = ''ImageMetadata'',
      SNS_TOPIC_ARN = ''topic'', MAX_WIDTH = 800, MAX_HEIGHT = 600,
      pillow_importable = True,
      image_open = (\<lambda>content. Inr png_400_300),
      image_resize = (\<lambda>img (width, height).
         if width < 1 \<or> height < 1 then Inl (ExternalError ''height and width must be > 0'')
         else Inr (img\<lparr>img_size := (width, height)\<rparr>)),
      image_save = (\<lambda>img fmt. Inr (raster img)),
      fault = no_fault,
      uuid4 = (\<lambda>n. ''id''),
      utcnow = (\<lambda>n. ''now'')\<rparr>"

definition undecodable_env :: env where
  "undecodable_env =
     example_env\<lparr>image_open := (\<lambda>content. Inl (ExternalError ''cannot identify image file''))\<rparr>"

definition flat_image_env :: env where
  "flat_image_env =
     example_env\<lparr>image_open := (\<lambda>content. Inr (png_400_300\<lparr>img_size := (1000, 1)\<rparr>))\<rparr>"

definition unsavable_env :: env where
  "unsavable_env =
     example_env\<lparr>image_save := (\<lambda>img fmt. Inl (ExternalError ''cannot write image''))\<rparr>"

definition no_pillow_env :: env where
  "no_pillow_env = example_env\<lparr>pillow_importable := False\<rparr>"

definition failing_publish_env :: env where
  "failing_publish_env = no_pillow_env\<lparr>fault := publish_fault\<rparr>"

definition example_world :: world where
  "example_world =
     \<lparr>s3 = [(''source'', ''cat.jpg'') \<mapsto> \<lparr>body = [1, 2, 3], content_type = Some ''image/png''\<rparr>],
      table_items = [], published = [], ticks = 0\<rparr>"

definition cat_record :: s3_event_record where
  "cat_record = \<lparr>bucket_name = ''source'', object_key = ''cat.jpg''\<rparr>"

definition missing_record :: s3_event_record where
  "missing_record = \<lparr>bucket_name = ''source'', object_key = ''missing.jpg''\<rparr>"

section \<open>Rounding to the nearest double\<close>

text \<open>
  \<open>binade\<close> is the binary exponent, rounding to the nearest integer is monotone and off
  by at most a half, and so \<open>nearest_double\<close> is monotone, exact on the doubles, and
  within the relative error \<open>2\<^sup>-\<^sup>5\<^sup>3\<close> in the normal range.
\<close>

lemma bitlen_powi_bounds:
  assumes "0 < a"
  shows "2 powi (bitlen a - 1) \<le> (of_int a :: rat)" and "(of_int a :: rat) < 2 powi bitlen a"
proof -
  have ge: "1 \<le> bitlen a" using assms by (auto simp: bitlen_alt_def)
  have "(2::int) ^ nat (bitlen a - 1) \<le> a" and "a < 2 ^ nat (bitlen a)"
    using bitlen_bounds [OF assms] by auto
  then have "(of_int ((2::int) ^ nat (bitlen a - 1)) :: rat) \<le> of_int a"
    and "(of_int a :: rat) < of_int (2 ^ nat (bitlen a))"
    by (simp_all only: of_int_le_iff of_int_less_iff)
  then show "2 powi (bitlen a - 1) \<le> (of_int a :: rat)" and "(of_int a :: rat) < 2 powi bitlen a"
    using ge by (simp_all add: power_int_def)
qed

lemma binade_bounds:
  assumes "0 < x"
  shows "2 powi binade x \<le> x" and "x < 2 powi (binade x + 1)"
proof -
  obtain a b where q: "quotient_of x = (a, b)" by (cases "quotient_of x")
  have b: "0 < b" using q quotient_of_denom_pos by blast
  have x: "x = of_int a / of_int b" using q quotient_of_div by blast
  have a: "0 < a" using assms b x by (simp add: zero_less_divide_iff)
  define d where "d = bitlen a - bitlen b"
  note la = bitlen_powi_bounds [OF a] and lb = bitlen_powi_bounds [OF b]
  have bd: "binade x = (if 2 powi d \<le> x then d else d - 1)"
    by (simp add: binade_def q d_def)
  have lo: "2 powi (d - 1) \<le> x"
  proof -
    have "2 powi (d - 1) * of_int b \<le> (2 powi (d - 1) * 2 powi bitlen b :: rat)"
      using lb(2) by (simp add: mult_left_mono)
    also have "\<dots> = 2 powi (bitlen a - 1)"
      by (simp add: d_def power_int_add [symmetric])
    also have "\<dots> \<le> of_int a" by (rule la(1))
    finally show ?thesis using b by (simp add: x pos_le_divide_eq)
  qed
  have hi: "x < 2 powi (d + 1)"
  proof -
    have "(of_int a :: rat) < 2 powi bitlen a" by (rule la(2))
    also have "\<dots> = 2 powi (d + 1) * 2 powi (bitlen b - 1)"
      by (simp add: d_def power_int_add [symmetric])
    also have "\<dots> \<le> 2 powi (d + 1) * of_int b"
      using lb(1) by (simp add: mult_left_mono)
    finally show ?thesis using b by (simp add: x pos_divide_less_eq)
  qed
  show "2 powi binade x \<le> x" using lo by (simp add: bd)
  show "x < 2 powi (binade x + 1)"
    using hi by (auto simp: bd not_le)
qed

lemma pow2_less_cancel:
  assumes "(2::rat) powi m < 2 powi n"
  shows "m < n"
proof (rule ccontr)
  assume "\<not> m < n"
  then have "n \<le> m" by simp
  then have "(2::rat) powi n \<le> 2 powi m" by (rule power_int_increasing) simp
  with assms show False by simp
qed

lemma binade_unique:
  assumes "2 powi e \<le> x" and "x < 2 powi (e + 1)"
  shows "binade x = e"
proof -
  have pos: "0 < x"
    using assms(1) by (rule less_le_trans [rotated]) simp
  note b = binade_bounds [OF pos]
  have "2 powi e < (2 powi (binade x + 1) :: rat)" using assms(1) b(2) by simp
  then have 1: "e < binade x + 1" by (rule pow2_less_cancel)
  have "2 powi binade x < (2 powi (e + 1) :: rat)" using assms(2) b(1) by simp
  then have 2: "binade x < e + 1" by (rule pow2_less_cancel)
  from 1 2 show ?thesis by simp
qed

lemma binade_mono:
  assumes "0 < x" and "x \<le> y"
  shows "binade x \<le> binade y"
proof -
  have "0 < y" using assms by simp
  have "2 powi binade x \<le> x" using binade_bounds(1) [OF assms(1)] .
  also have "x \<le> y" by fact
  also have "y < 2 powi (binade y + 1)" using binade_bounds(2) [OF \<open>0 < y\<close>] .
  finally have "binade x < binade y + 1" by (rule pow2_less_cancel)
  then show ?thesis by simp
qed


lemma round_half_even_of_int: "round_half_even (of_int n) = n"
  by (simp add: round_half_even_def)

lemma round_half_even_error: "\<bar>of_int (round_half_even t) - t\<bar> \<le> 1 / 2"
proof -
  have "of_int \<lfloor>t\<rfloor> \<le> t" and "t < of_int \<lfloor>t\<rfloor> + 1" by linarith+
  then show ?thesis
    unfolding round_half_even_def Let_def by (simp add: abs_if) linarith
qed

lemma round_half_even_bounds:
  shows "\<lfloor>t\<rfloor> \<le> round_half_even t" and "round_half_even t \<le> \<lfloor>t\<rfloor> + 1"
  by (simp_all add: round_half_even_def Let_def)

lemma round_half_even_mono:
  assumes "t \<le> s"
  shows "round_half_even t \<le> round_half_even s"
proof (cases "\<lfloor>t\<rfloor> = \<lfloor>s\<rfloor>")
  case True
  then show ?thesis using assms
    by (auto simp: round_half_even_def Let_def)
next
  case False
  then have "\<lfloor>t\<rfloor> + 1 \<le> \<lfloor>s\<rfloor>" using floor_mono [OF assms] by simp
  then show ?thesis
    using round_half_even_bounds(2) [of t] round_half_even_bounds(1) [of s] by linarith
qed


lemma quantum_mono: "0 < x \<Longrightarrow> x \<le> y \<Longrightarrow> quantum x \<le> quantum y"
  using binade_mono [of x y] by (simp add: quantum_def)

lemma nearest_double_le_grid:
  assumes "x \<le> of_int n * 2 powi quantum x"
  shows "nearest_double x \<le> of_int n * 2 powi quantum x"
proof -
  have "x / 2 powi quantum x \<le> of_int n"
    using assms by (simp add: pos_divide_le_eq)
  then have "round_half_even (x / 2 powi quantum x) \<le> n"
    using round_half_even_mono round_half_even_of_int by metis
  then show ?thesis
    by (simp add: nearest_double_def)
qed

lemma nearest_double_ge_grid:
  assumes "of_int n * 2 powi quantum x \<le> x"
  shows "of_int n * 2 powi quantum x \<le> nearest_double x"
proof -
  have "of_int n \<le> x / 2 powi quantum x"
    using assms by (simp add: pos_le_divide_eq)
  then have "n \<le> round_half_even (x / 2 powi quantum x)"
    using round_half_even_mono round_half_even_of_int by metis
  then show ?thesis
    by (simp add: nearest_double_def)
qed

lemma nearest_double_exact:
  assumes "x = of_int n * 2 powi quantum x"
  shows "nearest_double x = x"
  using nearest_double_le_grid [of x n] nearest_double_ge_grid [of n x] assms by simp

lemma pow2_int: "0 \<le> k \<Longrightarrow> (2::rat) powi k = of_int (2 ^ nat k)"
  by (simp add: power_int_def)

lemma nearest_double_mono:
  assumes "0 < x" and "x \<le> y"
  shows "nearest_double x \<le> nearest_double y"
proof (cases "quantum x = quantum y")
  case True
  have "x / 2 powi quantum y \<le> y / 2 powi quantum y"
    using assms(2) by (simp add: divide_right_mono)
  then have "round_half_even (x / 2 powi quantum y) \<le> round_half_even (y / 2 powi quantum y)"
    by (rule round_half_even_mono)
  then show ?thesis
    by (simp add: nearest_double_def True)
next
  case False
  have y: "0 < y" using assms by simp
  have lt: "quantum x < quantum y"
    using False quantum_mono [OF assms] by simp
  then have qy: "quantum y = binade y - 52" and bxy: "binade x < binade y"
    by (auto simp: quantum_def max_def split: if_splits)
  define g :: rat where "g = 2 powi binade y"
  have "x < 2 powi (binade x + 1)" using binade_bounds(2) [OF assms(1)] .
  also have "\<dots> \<le> g" unfolding g_def using bxy by (intro power_int_increasing) simp_all
  finally have xg: "x \<le> g" by simp
  have gy: "g \<le> y" unfolding g_def using binade_bounds(1) [OF y] .
  have k: "0 \<le> binade y - quantum x" using lt qy by simp
  have gx: "g = of_int (2 ^ nat (binade y - quantum x)) * 2 powi quantum x"
    unfolding g_def pow2_int [OF k, symmetric] by (simp add: power_int_add [symmetric])
  have gq: "g = of_int (2 ^ 52) * 2 powi quantum y"
    unfolding g_def qy by (simp add: power_int_diff)
  have "nearest_double x \<le> g"
    using nearest_double_le_grid [of x "2 ^ nat (binade y - quantum x)"] xg gx by simp
  moreover have "g \<le> nearest_double y"
    using nearest_double_ge_grid [of "2 ^ 52" y] gy gq by simp
  ultimately show ?thesis by simp
qed

lemma nearest_double_error:
  "\<bar>nearest_double x - x\<bar> \<le> 2 powi quantum x / 2"
proof -
  define p :: rat where "p = 2 powi quantum x"
  define a :: rat where "a = of_int (round_half_even (x / p))"
  have p: "0 < p" by (simp add: p_def)
  have "a * p - x = (a - x / p) * p"
    using p by (simp add: left_diff_distrib)
  then have "\<bar>a * p - x\<bar> = \<bar>a - x / p\<bar> * p"
    using p by (simp only: abs_mult abs_of_pos)
  also have "\<dots> \<le> 1 / 2 * p"
    unfolding a_def using round_half_even_error [of "x / p"] p by (intro mult_right_mono) simp_all
  finally show ?thesis
    by (simp add: nearest_double_def p_def a_def)
qed

lemma nearest_double_relative_error:
  assumes "0 < x" and "- 1022 \<le> binade x"
  shows "\<bar>nearest_double x - x\<bar> \<le> x / 2 ^ 53"
proof -
  have q: "quantum x = binade x - 52" using assms(2) by (simp add: quantum_def)
  have "2 powi quantum x = 2 powi binade x / (2 ^ 52 :: rat)"
    by (simp add: q power_int_diff)
  also have "\<dots> \<le> x / 2 ^ 52"
    using binade_bounds(1) [OF assms(1)] by (simp add: divide_right_mono)
  finally have "2 powi quantum x / 2 \<le> x / 2 ^ 53" by simp
  with nearest_double_error [of x] show ?thesis by linarith
qed


lemma binade_ge:
  assumes "2 powi e \<le> x"
  shows "e \<le> binade x"
proof -
  have pos: "0 < x"
    using assms by (rule less_le_trans [rotated]) simp
  have "2 powi e < (2 powi (binade x + 1) :: rat)"
    using assms binade_bounds(2) [OF pos] by simp
  then have "e < binade x + 1" by (rule pow2_less_cancel)
  then show ?thesis by simp
qed

lemma nearest_double_nonneg:
  assumes "0 \<le> x"
  shows "0 \<le> nearest_double x"
proof -
  have "0 \<le> x / 2 powi quantum x" using assms by simp
  then have "0 \<le> round_half_even (x / 2 powi quantum x)"
    using round_half_even_mono [of 0 "x / 2 powi quantum x"] round_half_even_of_int [of 0]
    by simp
  then show ?thesis by (simp add: nearest_double_def)
qed

lemma ieee_round_pos:
  assumes "0 < x" and "nearest_double x < 2 ^ 1024"
  shows "ieee_round x = Finite (nearest_double x)"
  using assms by (simp add: ieee_round_def Let_def)

lemma nearest_double_int:
  assumes "0 < n" and "n < 2 ^ 53"
  shows "nearest_double (of_int n) = of_int n"
proof -
  define x :: rat where "x = of_int n"
  have pos: "0 < x" using assms(1) by (simp add: x_def)
  have "x < of_int (2 ^ 53)" unfolding x_def using assms(2) by (simp only: of_int_less_iff)
  then have "x < 2 powi 53" by simp
  with binade_bounds(1) [OF pos] have "2 powi binade x < (2 powi 53 :: rat)" by simp
  then have "binade x < 53" by (rule pow2_less_cancel)
  then have q: "quantum x \<le> 0" by (simp add: quantum_def)
  have "2 powi (- quantum x) * 2 powi quantum x = (1::rat)"
    by (simp add: power_int_add [symmetric])
  then have "x = x * 2 powi (- quantum x) * 2 powi quantum x" by (simp add: mult.assoc)
  also have "2 powi (- quantum x) = (of_int (2 ^ nat (- quantum x)) :: rat)"
    using q by (intro pow2_int) simp
  finally have "x = of_int (n * 2 ^ nat (- quantum x)) * 2 powi quantum x"
    by (simp add: x_def)
  then show ?thesis unfolding x_def [symmetric] by (rule nearest_double_exact)
qed


lemma nearest_double_close:
  assumes "1 / 2 ^ 1022 \<le> x"
  shows "x * (1 - 1 / 2 ^ 53) \<le> nearest_double x" and "nearest_double x \<le> x * (1 + 1 / 2 ^ 53)"
proof -
  have "(2::rat) powi (- 1022) \<le> x" using assms by (simp add: power_int_minus_divide)
  then have b: "- 1022 \<le> binade x" by (rule binade_ge)
  have pos: "0 < x" using assms by (rule less_le_trans [rotated]) simp
  from nearest_double_relative_error [OF pos b]
  have "x - x / 2 ^ 53 \<le> nearest_double x" and "nearest_double x \<le> x + x / 2 ^ 53"
    by linarith+
  then show "x * (1 - 1 / 2 ^ 53) \<le> nearest_double x"
    and "nearest_double x \<le> x * (1 + 1 / 2 ^ 53)"
    by (simp_all add: algebra_simps)
qed

lemma two_roundings:
  fixes q z y u :: rat
  assumes q: "0 \<le> q" and u: "0 \<le> u" "u \<le> 1 / 4"
    and z: "q * (1 - u) \<le> z" "z \<le> q * (1 + 2 * u)"
    and y: "z * (1 - u) \<le> y" "y \<le> z * (1 + u)"
  shows "\<bar>y - q\<bar> \<le> q * (4 * u)"
proof -
  have "u * u \<le> u * (1 / 4)"
    using u by (intro mult_left_mono) simp_all
  then have uu: "2 * (u * u) \<le> u" using u by simp
  have "y \<le> z * (1 + u)" by fact
  also have "\<dots> \<le> q * (1 + 2 * u) * (1 + u)"
    using z(2) u by (intro mult_right_mono) simp_all
  also have "\<dots> = q * (1 + 3 * u + 2 * (u * u))" by (simp add: algebra_simps)
  also have "\<dots> \<le> q * (1 + 4 * u)"
    using q uu by (intro mult_left_mono) simp_all
  finally have hi: "y - q \<le> q * (4 * u)" by (simp add: algebra_simps)
  have "q * (1 - 4 * u) \<le> q * (1 - 2 * u + u * u)"
    using q u by (intro mult_left_mono) simp_all
  also have "\<dots> = q * (1 - u) * (1 - u)" by (simp add: algebra_simps)
  also have "\<dots> \<le> z * (1 - u)"
    using z(1) u by (intro mult_right_mono) simp_all
  also have "\<dots> \<le> y" by fact
  finally have lo: "q - y \<le> q * (4 * u)" by (simp add: algebra_simps)
  from hi lo show ?thesis by (simp add: abs_le_iff)
qed

lemma floor_near_fraction:
  fixes a b :: int and y :: rat
  assumes b: "0 < b" and y: "\<bar>y - of_int a / of_int b\<bar> < 1 / (2 * of_int b)"
  shows "a div b - 1 \<le> \<lfloor>y\<rfloor>" and "\<lfloor>y\<rfloor> \<le> a div b" and "\<not> b dvd a \<Longrightarrow> \<lfloor>y\<rfloor> = a div b"
proof -
  define n where "n = a div b"
  define m where "m = a mod b"
  have a: "a = n * b + m" by (simp add: n_def m_def)
  have "m < b" unfolding m_def using b by (rule pos_mod_bound)
  moreover have "0 \<le> m" using b by (simp add: m_def)
  ultimately have m: "0 \<le> m" "m + 1 \<le> b" by simp_all
  define B :: rat where "B = of_int b"
  have B: "1 \<le> B" using b by (simp add: B_def)
  define c :: rat where "c = 1 / (2 * B)"
  define d :: rat where "d = of_int m / B"
  have q: "of_int a / of_int b = of_int n + d"
    using B by (simp add: a B_def d_def add_divide_distrib)
  have c: "0 < c" "c \<le> 1" using B by (simp_all add: c_def)
  have d0: "0 \<le> d" using m(1) B by (simp add: d_def)
  have d1: "d + 2 * c \<le> 1"
  proof -
    have "of_int (m + 1) \<le> B" unfolding B_def using m(2) by (simp only: of_int_le_iff)
    then have "(of_int m + 1) / B \<le> 1" using B by (simp add: pos_divide_le_eq)
    then show ?thesis by (simp add: add_divide_distrib c_def d_def)
  qed
  from y have lo: "of_int n + d - c < y" and hi: "y < of_int n + d + c"
    unfolding q c_def B_def by (simp_all add: abs_less_iff)
  have "y < of_int (n + 1)" using hi c d1 by simp
  then have "\<lfloor>y\<rfloor> < n + 1" by (simp only: floor_less_iff)
  then show 1: "\<lfloor>y\<rfloor> \<le> a div b" by (simp add: n_def)
  have "of_int (n - 1) \<le> y" using lo c d0 by simp
  then have "n - 1 \<le> \<lfloor>y\<rfloor>" by (simp only: le_floor_iff)
  then show "a div b - 1 \<le> \<lfloor>y\<rfloor>" by (simp add: n_def)
  show "\<lfloor>y\<rfloor> = a div b" if "\<not> b dvd a"
  proof -
    have "m \<noteq> 0" using that by (auto simp: m_def dvd_eq_mod_eq_0)
    then have "1 \<le> m" using m(1) by simp
    then have "(1::rat) \<le> of_int m" by simp
    then have "1 / B \<le> of_int m / B" using B by (simp add: divide_right_mono)
    then have "2 * c \<le> d" by (simp add: c_def d_def)
    then have "of_int n \<le> y" using lo c by simp
    then have "n \<le> \<lfloor>y\<rfloor>" by (simp add: le_floor_iff)
    with 1 show ?thesis by (simp add: n_def)
  qed
qed

lemma round_half_even_eqI:
  assumes "\<bar>of_int m - t\<bar> < 1 / 2"
  shows "round_half_even t = m"
proof -
  have "\<bar>of_int (round_half_even t) - t\<bar> \<le> 1 / 2" by (rule round_half_even_error)
  with assms have "\<bar>(of_int (round_half_even t) :: rat) - of_int m\<bar> < 1" by linarith
  then have "\<bar>round_half_even t - m\<bar> < 1"
    by (simp only: of_int_diff [symmetric] of_int_abs [symmetric] of_int_less_1_iff)
  then show ?thesis by simp
qed

lemma nearest_double_eqI:
  assumes "2 powi e \<le> x" and "x < 2 powi (e + 1)"
    and "q = max (e - 52) (- 1074)"
    and "\<bar>of_int m - x / 2 powi q\<bar> < 1 / 2"
  shows "nearest_double x = of_int m * 2 powi q"
proof -
  have "binade x = e" using assms(1,2) by (rule binade_unique)
  then have "quantum x = q" by (simp add: quantum_def assms(3))
  then show ?thesis
    using round_half_even_eqI [OF assms(4)] by (simp add: nearest_double_def)
qed

lemma nearest_double_2_1023: "nearest_double (2 ^ 1023) = 2 ^ 1023"
  using nearest_double_eqI [of 1023 "2 ^ 1023" 971 "2 ^ 52"]
  by (simp add: power_int_minus_divide)

lemma nearest_double_2_1024: "nearest_double (2 ^ 1024) = 2 ^ 1024"
  using nearest_double_eqI [of 1024 "2 ^ 1024" 972 "2 ^ 52"]
  by (simp add: power_int_minus_divide)

lemma ieee_round_overflow:
  assumes "2 ^ 1024 \<le> nearest_double x" and "0 < x"
  shows "ieee_round x = PosInf"
  using assms by (simp add: ieee_round_def Let_def)

lemma ieee_round_eqI:
  assumes "2 powi e \<le> x" and "x < 2 powi (e + 1)"
    and "q = max (e - 52) (- 1074)"
    and "\<bar>of_int m - x / 2 powi q\<bar> < 1 / 2"
    and "y = of_int m * 2 powi q" and "y < 2 ^ 1024"
  shows "ieee_round x = Finite y"
proof -
  have pos: "0 < x" using assms(1) by (rule less_le_trans [rotated]) simp
  have "binade x = e" using assms(1,2) by (rule binade_unique)
  then have "quantum x = q" by (simp add: quantum_def assms(3))
  then have "nearest_double x = y"
    using round_half_even_eqI [OF assms(4)] by (simp add: nearest_double_def assms(5))
  then show ?thesis using pos assms(6) by (simp add: ieee_round_pos)
qed

section \<open>The float operations of the dimension computation\<close>

text \<open>
  For sizes below \<open>2\<^sup>2\<^sup>5\<close> no operation overflows or underflows, the test
  \<open>aspect_ratio > 1\<close> decides \<open>original_height < original_width\<close>, and the two roundings
  leave the result within \<open>1 / (2 * d)\<close> of the exact quotient, \<open>d\<close> its denominator.
\<close>

lemma ieee_round_normal:
  assumes "1 / 2 ^ 1022 \<le> x" and "x \<le> 2 ^ 60"
  shows "ieee_round x = Finite (nearest_double x)"
proof -
  have pos: "0 < x" using assms(1) by (rule less_le_trans [rotated]) simp
  have "nearest_double x \<le> x * (1 + 1 / 2 ^ 53)" using assms(1) by (rule nearest_double_close)
  also have "\<dots> \<le> 2 ^ 60 * (1 + 1 / 2 ^ 53)"
    using assms(2) by (intro mult_right_mono) simp_all
  also have "\<dots> < 2 ^ 1024" by simp
  finally show ?thesis using pos by (simp add: ieee_round_pos)
qed

lemma py_float_small:
  assumes "0 < n" and "n < 2 ^ 25"
  shows "py_float n = Inr (of_int n)"
proof -
  have n: "n < 2 ^ 53" using assms(2) by simp
  have "(of_int n :: rat) < of_int (2 ^ 53)" using n by (simp only: of_int_less_iff)
  then have "nearest_double (of_int n) < 2 ^ 1024"
    using nearest_double_int [OF assms(1) n] by simp
  then show ?thesis
    using assms(1) nearest_double_int [OF assms(1) n]
    by (simp add: py_float_def ieee_round_pos)
qed

text \<open>The quotient of two sizes below \<open>2\<^sup>2\<^sup>5\<close> and its bounds.\<close>

lemma ratio_bounds:
  fixes a b :: int
  assumes "0 < a" "a < 2 ^ 25" "0 < b" "b < 2 ^ 25"
  shows "1 / 2 ^ 25 \<le> (of_int a / of_int b :: rat)" and "(of_int a / of_int b :: rat) \<le> 2 ^ 25"
proof -
  have a: "(1::rat) \<le> of_int a" "(of_int a :: rat) \<le> 2 ^ 25"
    using assms(1,2) by simp_all
  have b: "(1::rat) \<le> of_int b" "(of_int b :: rat) \<le> 2 ^ 25"
    using assms(3,4) by simp_all
  have "1 / 2 ^ 25 \<le> 1 / (of_int b :: rat)" using b by (intro divide_left_mono) simp_all
  also have "\<dots> \<le> of_int a / of_int b" using a b by (intro divide_right_mono) simp_all
  finally show "1 / 2 ^ 25 \<le> (of_int a / of_int b :: rat)" .
  have "(of_int a / of_int b :: rat) \<le> of_int a / 1" using a b by (intro divide_left_mono) simp_all
  also have "\<dots> \<le> 2 ^ 25" using a by simp
  finally show "(of_int a / of_int b :: rat) \<le> 2 ^ 25" .
qed

lemma py_truediv_small:
  assumes "0 < a" "a < 2 ^ 25" "0 < b" "b < 2 ^ 25"
  shows "py_truediv a b = Inr (nearest_double (of_int a / of_int b))"
proof -
  note r = ratio_bounds [OF assms]
  have "1 / 2 ^ 1022 \<le> (1 / 2 ^ 25 :: rat)" by simp
  then have lo: "1 / 2 ^ 1022 \<le> (of_int a / of_int b :: rat)" using r(1) by (rule order_trans)
  have "(2 ^ 25 :: rat) \<le> 2 ^ 60" by simp
  with r(2) have hi: "(of_int a / of_int b :: rat) \<le> 2 ^ 60" by (rule order_trans)
  show ?thesis using assms(3) ieee_round_normal [OF lo hi] by (simp add: py_truediv_def)
qed


lemma div_step:
  fixes M x r u :: rat
  assumes M: "0 < M" and x: "0 < x" and u: "0 \<le> u" "u \<le> 1 / 4"
    and r: "x * (1 - u) \<le> r" "r \<le> x * (1 + u)"
  shows "0 < r" and "M / x * (1 - u) \<le> M / r" and "M / r \<le> M / x * (1 + 2 * u)"
proof -
  have "0 < x * (1 - u)" using x u by simp
  with r(1) show pos: "0 < r" by simp
  have "u * u \<le> u * (1 / 4)" using u by (intro mult_left_mono) simp_all
  then have uu: "2 * (u * u) \<le> u" "0 \<le> u * u" using u by simp_all
  have c: "0 \<le> M / x" using M x by simp
  have c1: "0 \<le> M / x * (1 - u)" using c u by (intro mult_nonneg_nonneg) simp_all
  have c2: "0 \<le> M / x * (1 + 2 * u)" using c u by (intro mult_nonneg_nonneg) simp_all
  have "M / x * (1 - u) * r \<le> M / x * (1 - u) * (x * (1 + u))"
    using r(2) c1 by (rule mult_left_mono)
  also have "\<dots> = M * (1 - u * u)" using x by (simp add: field_simps)
  also have "\<dots> \<le> M * 1" using M uu by (intro mult_left_mono) simp_all
  finally show "M / x * (1 - u) \<le> M / r" using pos by (simp add: pos_le_divide_eq)
  have "M * 1 \<le> M * (1 + u - 2 * (u * u))" using M uu by (intro mult_left_mono) simp_all
  also have "\<dots> = M / x * (1 + 2 * u) * (x * (1 - u))" using x by (simp add: field_simps)
  also have "\<dots> \<le> M / x * (1 + 2 * u) * r"
    using r(1) c2 by (rule mult_left_mono)
  finally show "M / r \<le> M / x * (1 + 2 * u)" using pos by (simp add: pos_divide_le_eq)
qed

lemma mul_step:
  fixes M x r u :: rat
  assumes M: "0 < M" and x: "0 < x" and u: "0 \<le> u" "u \<le> 1 / 4"
    and r: "x * (1 - u) \<le> r" "r \<le> x * (1 + u)"
  shows "M * x * (1 - u) \<le> M * r" and "M * r \<le> M * x * (1 + 2 * u)"
proof -
  have "M * (x * (1 - u)) \<le> M * r" using r(1) M by (intro mult_left_mono) simp_all
  then show "M * x * (1 - u) \<le> M * r" by (simp add: mult.assoc)
  have "M * r \<le> M * (x * (1 + u))" using r(2) M by (intro mult_left_mono) simp_all
  also have "\<dots> \<le> M * (x * (1 + 2 * u))" using M x u by (intro mult_left_mono) simp_all
  finally show "M * r \<le> M * x * (1 + 2 * u)" by (simp add: mult.assoc)
qed

text \<open>
  The second rounding: a value \<open>z\<close> within the two-sided bound of an exact \<open>q\<close> that lies
  between \<open>2\<^sup>-\<^sup>2\<^sup>5\<close> and \<open>2\<^sup>5\<^sup>0\<close> is rounded to a finite double within \<open>q / 2\<^sup>5\<^sup>1\<close> of \<open>q\<close>.
\<close>

lemma second_rounding:
  fixes q z :: rat
  assumes q: "1 / 2 ^ 25 \<le> q" "q \<le> 2 ^ 50"
    and z: "q * (1 - 1 / 2 ^ 53) \<le> z" "z \<le> q * (1 + 2 * (1 / 2 ^ 53))"
  shows "ieee_round z = Finite (nearest_double z)"
    and "\<bar>nearest_double z - q\<bar> \<le> q / 2 ^ 51"
proof -
  have q0: "0 \<le> q" using q(1) by (rule order_trans [rotated]) simp
  have "1 / 2 ^ 1022 \<le> (1 / 2 ^ 25 :: rat) * (1 - 1 / 2 ^ 53)" by simp
  also have "\<dots> \<le> q * (1 - 1 / 2 ^ 53)" using q(1) by (intro mult_right_mono) simp_all
  also have "\<dots> \<le> z" by fact
  finally have lo: "1 / 2 ^ 1022 \<le> z" .
  have "z \<le> q * (1 + 2 * (1 / 2 ^ 53))" by fact
  also have "\<dots> \<le> 2 ^ 50 * (1 + 2 * (1 / 2 ^ 53))" using q(2) by (intro mult_right_mono) simp_all
  also have "\<dots> \<le> 2 ^ 60" by simp
  finally have hi: "z \<le> 2 ^ 60" .
  show "ieee_round z = Finite (nearest_double z)" using lo hi by (rule ieee_round_normal)
  have "\<bar>nearest_double z - q\<bar> \<le> q * (4 * (1 / 2 ^ 53))"
    using q0 _ _ z nearest_double_close [OF lo] by (rule two_roundings) simp_all
  then show "\<bar>nearest_double z - q\<bar> \<le> q / 2 ^ 51" by simp
qed


lemma product_small:
  fixes a b :: int
  assumes "0 < a" "a < 2 ^ 25" "0 < b" "b < 2 ^ 25"
  shows "a * b < 2 ^ 50"
proof -
  have "a * b < 2 ^ 25 * 2 ^ 25"
    using assms by (intro mult_strict_mono) simp_all
  then show ?thesis by simp
qed

lemma close_to_fraction:
  fixes a b :: int and y :: rat
  assumes a: "0 < a" "a < 2 ^ 50" and b: "0 < b"
    and y: "\<bar>y - of_int a / of_int b\<bar> \<le> (of_int a / of_int b) / 2 ^ 51"
  shows "\<bar>y - of_int a / of_int b\<bar> < 1 / (2 * of_int b)"
proof -
  have "(of_int a :: rat) < of_int (2 ^ 50)" using a(2) by (simp only: of_int_less_iff)
  then have "(of_int a :: rat) / 2 ^ 51 < 2 ^ 50 / 2 ^ 51" by (intro divide_strict_right_mono) simp_all
  then have "(of_int a :: rat) / 2 ^ 51 < 1 / 2" by simp
  then have "(of_int a :: rat) / 2 ^ 51 / of_int b < 1 / 2 / of_int b"
    using b by (intro divide_strict_right_mono) simp_all
  then have "(of_int a / of_int b :: rat) / 2 ^ 51 < 1 / (2 * of_int b)"
    by (simp add: field_simps)
  with y show ?thesis by (rule le_less_trans)
qed

lemma aspect_ratio_gt_one_iff:
  assumes "0 < w" "w < 2 ^ 25" "0 < h" "h < 2 ^ 25"
  shows "1 < nearest_double (of_int w / of_int h) \<longleftrightarrow> h < w"
proof
  assume "h < w"
  define x :: rat where "x = of_int w / of_int h"
  have h: "(1::rat) \<le> of_int h" "(of_int h :: rat) \<le> 2 ^ 25" using assms(3,4) by simp_all
  have "h + 1 \<le> w" using \<open>h < w\<close> by simp
  then have "of_int (h + 1) \<le> (of_int w :: rat)" by (simp only: of_int_le_iff)
  then have "(of_int h + 1) / of_int h \<le> x"
    unfolding x_def using h by (intro divide_right_mono) simp_all
  moreover have "1 / 2 ^ 25 \<le> 1 / (of_int h :: rat)" using h by (intro divide_left_mono) simp_all
  moreover have "(of_int h + 1) / of_int h = 1 + 1 / (of_int h :: rat)"
    using h by (simp add: add_divide_distrib)
  ultimately have x: "1 + 1 / 2 ^ 25 \<le> x" by linarith
  have "1 / 2 ^ 1022 \<le> (1 + 1 / 2 ^ 25 :: rat)" by simp
  then have "1 / 2 ^ 1022 \<le> x" using x by (rule order_trans)
  then have "x * (1 - 1 / 2 ^ 53) \<le> nearest_double x" by (rule nearest_double_close)
  moreover have "(1 + 1 / 2 ^ 25) * (1 - 1 / 2 ^ 53) \<le> x * (1 - 1 / 2 ^ 53)"
    using x by (intro mult_right_mono) simp_all
  moreover have "(1::rat) < (1 + 1 / 2 ^ 25) * (1 - 1 / 2 ^ 53)" by simp
  ultimately show "1 < nearest_double (of_int w / of_int h)"
    unfolding x_def by linarith
next
  assume gt: "1 < nearest_double (of_int w / of_int h)"
  show "h < w"
  proof (rule ccontr)
    assume "\<not> h < w"
    then have "(of_int w :: rat) \<le> of_int h" by simp
    then have le: "(of_int w / of_int h :: rat) \<le> 1"
      using assms(3) by (simp add: pos_divide_le_eq)
    have "(0::rat) < of_int w / of_int h" using assms(1,3) by simp
    then have "nearest_double (of_int w / of_int h) \<le> nearest_double 1"
      using le by (rule nearest_double_mono)
    also have "nearest_double 1 = 1" using nearest_double_int [of 1] by simp
    finally show False using gt by simp
  qed
qed


lemma landscape_height:
  assumes w: "0 < w" "w < 2 ^ 25" and h: "0 < h" "h < 2 ^ 25" and M: "0 < M" "M < 2 ^ 25"
  shows "\<exists>y. int_div_float M (nearest_double (of_int w / of_int h)) = Inr (Finite y) \<and> 0 \<le> y
           \<and> \<bar>y - of_int (M * h) / of_int w\<bar> < 1 / (2 * of_int w)"
proof -
  define x :: rat where "x = of_int w / of_int h"
  define r where "r = nearest_double x"
  define q :: rat where "q = of_int (M * h) / of_int w"
  note xb = ratio_bounds [OF w h, folded x_def]
  have x: "0 < x" using w(1) h(1) by (simp add: x_def)
  have "1 / 2 ^ 1022 \<le> (1 / 2 ^ 25 :: rat)" by simp
  then have "1 / 2 ^ 1022 \<le> x" using xb(1) by (rule order_trans)
  note rb = nearest_double_close [OF this, folded r_def]
  have Mr: "(0::rat) < of_int M" using M(1) by simp
  have u: "(0::rat) \<le> 1 / 2 ^ 53" "(1 / 2 ^ 53 :: rat) \<le> 1 / 4" by simp_all
  note d = div_step [OF Mr x u rb]
  have qx: "q = of_int M / x" by (simp add: q_def x_def)
  have Mh: "0 < M * h" "M * h < 2 ^ 50"
    using M h product_small [OF M h] by simp_all
  have q1: "1 / 2 ^ 25 \<le> q"
  proof -
    have "(1::rat) \<le> of_int (M * h)" using Mh(1) by (simp del: of_int_mult)
    moreover have "(of_int w :: rat) \<le> 2 ^ 25" "(0::rat) < of_int w" using w by simp_all
    ultimately have "1 / 2 ^ 25 \<le> 1 / (of_int w :: rat)" "1 / of_int w \<le> q"
      unfolding q_def by (simp_all add: divide_left_mono divide_right_mono del: of_int_mult)
    then show ?thesis by (rule order_trans)
  qed
  have q2: "q \<le> 2 ^ 50"
  proof -
    have "(of_int (M * h) :: rat) \<le> of_int (2 ^ 50)" using Mh(2) by (simp only: of_int_le_iff)
    moreover have "(1::rat) \<le> of_int w" using w by simp
    ultimately have "q \<le> of_int (2 ^ 50) / 1"
      unfolding q_def by (intro frac_le) simp_all
    then show ?thesis by simp
  qed
  note s = second_rounding [OF q1 q2 d(2,3) [folded qx]]
  define y where "y = nearest_double (of_int M / r)"
  have "int_div_float M r = Inr (Finite y)"
    using d(1) s(1) py_float_small [OF M] by (simp add: int_div_float_def ebind_def y_def)
  moreover have "0 \<le> y" unfolding y_def using d(1) Mr by (intro nearest_double_nonneg) simp
  moreover have "\<bar>y - of_int (M * h) / of_int w\<bar> < 1 / (2 * of_int w)"
    using Mh w(1) s(2) [unfolded q_def, folded y_def] by (rule close_to_fraction)
  ultimately show ?thesis unfolding r_def x_def by blast
qed

lemma portrait_width:
  assumes w: "0 < w" "w < 2 ^ 25" and h: "0 < h" "h < 2 ^ 25" and M: "0 < M" "M < 2 ^ 25"
  shows "\<exists>y. int_mul_float M (nearest_double (of_int w / of_int h)) = Inr (Finite y) \<and> 0 \<le> y
           \<and> \<bar>y - of_int (M * w) / of_int h\<bar> < 1 / (2 * of_int h)"
proof -
  define x :: rat where "x = of_int w / of_int h"
  define r where "r = nearest_double x"
  define q :: rat where "q = of_int (M * w) / of_int h"
  note xb = ratio_bounds [OF w h, folded x_def]
  have x: "0 < x" using w(1) h(1) by (simp add: x_def)
  have "1 / 2 ^ 1022 \<le> (1 / 2 ^ 25 :: rat)" by simp
  then have "1 / 2 ^ 1022 \<le> x" using xb(1) by (rule order_trans)
  note rb = nearest_double_close [OF this, folded r_def]
  have Mr: "(0::rat) < of_int M" using M(1) by simp
  have u: "(0::rat) \<le> 1 / 2 ^ 53" "(1 / 2 ^ 53 :: rat) \<le> 1 / 4" by simp_all
  note d = mul_step [OF Mr x u rb]
  have qx: "q = of_int M * x" by (simp add: q_def x_def)
  have Mw: "0 < M * w" "M * w < 2 ^ 50"
    using M w product_small [OF M w] by simp_all
  have q1: "1 / 2 ^ 25 \<le> q"
  proof -
    have "(1::rat) \<le> of_int (M * w)" using Mw(1) by (simp del: of_int_mult)
    moreover have "(of_int h :: rat) \<le> 2 ^ 25" "(0::rat) < of_int h" using h by simp_all
    ultimately have "1 / 2 ^ 25 \<le> 1 / (of_int h :: rat)" "1 / of_int h \<le> q"
      unfolding q_def by (simp_all add: divide_left_mono divide_right_mono del: of_int_mult)
    then show ?thesis by (rule order_trans)
  qed
  have q2: "q \<le> 2 ^ 50"
  proof -
    have "(of_int (M * w) :: rat) \<le> of_int (2 ^ 50)" using Mw(2) by (simp only: of_int_le_iff)
    moreover have "(1::rat) \<le> of_int h" using h by simp
    ultimately have "q \<le> of_int (2 ^ 50) / 1"
      unfolding q_def by (intro frac_le) simp_all
    then show ?thesis by simp
  qed
  note s = second_rounding [OF q1 q2 d [folded qx]]
  define y where "y = nearest_double (of_int M * r)"
  have "int_mul_float M r = Inr (Finite y)"
    using s(1) py_float_small [OF M] by (simp add: int_mul_float_def ebind_def y_def)
  moreover have "0 \<le> y" unfolding y_def
    using Mr nearest_double_nonneg [OF less_imp_le [OF x], folded r_def]
    by (intro nearest_double_nonneg) simp
  moreover have "\<bar>y - of_int (M * w) / of_int h\<bar> < 1 / (2 * of_int h)"
    using Mw h(1) s(2) [unfolded q_def, folded y_def] by (rule close_to_fraction)
  ultimately show ?thesis unfolding r_def x_def by blast
qed

lemma py_truediv_in_range:
  assumes "0 < a" and "0 < b" and "a \<le> 2 ^ 1023 * b"
  shows "py_truediv a b = Inr (nearest_double (of_int a / of_int b))"
proof -
  define x :: rat where "x = of_int a / of_int b"
  have pos: "0 < x" using assms(1,2) by (simp add: x_def)
  have "(of_int a :: rat) \<le> of_int (2 ^ 1023 * b)" using assms(3) by (simp only: of_int_le_iff)
  then have "x \<le> 2 ^ 1023" using assms(2) by (simp add: x_def pos_divide_le_eq)
  with pos have "nearest_double x \<le> nearest_double (2 ^ 1023)" by (rule nearest_double_mono)
  then have "nearest_double x \<le> 2 ^ 1023" by (simp only: nearest_double_2_1023)
  moreover have "(2::rat) ^ 1023 < 2 ^ 1024" by simp
  ultimately have "nearest_double x < 2 ^ 1024" by (rule le_less_trans)
  then show ?thesis
    using assms(2) pos by (simp add: py_truediv_def ieee_round_pos x_def)
qed

lemma new_dimensions_unchanged:
  assumes "0 < w" and "0 < h" and "w \<le> maxW" and "h \<le> maxH" and "w \<le> 2 ^ 1023 * h"
  shows "new_dimensions w h maxW maxH = Inr (w, h)"
  using assms py_truediv_in_range [of w h]
  by (simp add: new_dimensions_def ebind_def)

lemma new_dimensions_overflow: "new_dimensions (2 ^ 1024) 1 (2 ^ 1024) 1 = Inl OverflowError"
proof -
  have "(2::rat) ^ 1024 \<le> nearest_double (2 ^ 1024)"
    by (simp only: nearest_double_2_1024 order_refl)
  moreover have "(0::rat) < 2 ^ 1024" by simp
  ultimately have "ieee_round (2 ^ 1024) = PosInf" by (rule ieee_round_overflow)
  then have "py_truediv (2 ^ 1024) 1 = Inl OverflowError"
    by (simp add: py_truediv_def)
  then show ?thesis by (simp add: new_dimensions_def ebind_def)
qed

lemma py_truediv_eqI:
  assumes "b \<noteq> 0" and "ieee_round (of_int a / of_int b) = Finite y"
  shows "py_truediv a b = Inr y"
  using assms by (simp add: py_truediv_def)

lemma new_dimensions_landscapeI:
  assumes "py_truediv w h = Inr r" and "maxW < w \<or> maxH < h" and "1 < r"
    and "py_float maxW = Inr M" and "ieee_round (M / r) = Finite y"
    and "0 \<le> y" and "of_int k \<le> y" and "y < of_int k + 1"
  shows "new_dimensions w h maxW maxH = Inr (maxW, k)"
  using assms floor_unique [of k y]
  by (simp add: new_dimensions_def int_div_float_def py_int_def ebind_def)

lemma new_dimensions_portraitI:
  assumes "py_truediv w h = Inr r" and "maxW < w \<or> maxH < h" and "\<not> 1 < r"
    and "py_float maxH = Inr M" and "ieee_round (M * r) = Finite y"
    and "0 \<le> y" and "of_int k \<le> y" and "y < of_int k + 1"
  shows "new_dimensions w h maxW maxH = Inr (k, maxH)"
  using assms floor_unique [of k y]
  by (simp add: new_dimensions_def int_mul_float_def py_int_def ebind_def)

lemma new_dimensions_700_650: "new_dimensions 700 650 800 600 = Inr (800, 742)"
proof (rule new_dimensions_landscapeI)
  show "py_truediv 700 650 = Inr (4850030367937457 / 2 ^ 52)"
    by (rule py_truediv_eqI, simp,
        rule ieee_round_eqI [where e = 0 and q = "- 52" and m = 4850030367937457])
       (simp_all add: power_int_minus_divide)
  show "py_float 800 = Inr 800"
    using py_float_small [of 800] by simp
  show "ieee_round (800 / (4850030367937457 / 2 ^ 52)) = Finite (6534240530783086 / 2 ^ 43)"
    by (rule ieee_round_eqI [where e = 9 and q = "- 43" and m = 6534240530783086])
       (simp_all add: power_int_minus_divide)
qed simp_all

lemma new_dimensions_66_720: "new_dimensions 66 720 800 600 = Inr (54, 600)"
proof (rule new_dimensions_portraitI)
  show "py_truediv 66 720 = Inr (6605279453476727 / 2 ^ 56)"
    by (rule py_truediv_eqI, simp,
        rule ieee_round_eqI [where e = "- 4" and q = "- 56" and m = 6605279453476727])
       (simp_all add: power_int_minus_divide)
  show "py_float 600 = Inr 600"
    using py_float_small [of 600] by simp
  show "ieee_round (600 * (6605279453476727 / 2 ^ 56)) = Finite (7740561859543039 / 2 ^ 47)"
    by (rule ieee_round_eqI [where e = 5 and q = "- 47" and m = 7740561859543039])
       (simp_all add: power_int_minus_divide)
qed simp_all

lemma new_dimensions_1000_1: "new_dimensions 1000 1 800 600 = Inr (800, 0)"
proof (rule new_dimensions_landscapeI)
  show "py_truediv 1000 1 = Inr 1000"
    by (rule py_truediv_eqI, simp,
        rule ieee_round_eqI [where e = 9 and q = "- 43" and m = 8796093022208000])
       (simp_all add: power_int_minus_divide)
  show "py_float 800 = Inr 800"
    using py_float_small [of 800] by simp
  show "ieee_round (800 / 1000) = Finite (7205759403792794 / 2 ^ 53)"
    by (rule ieee_round_eqI [where e = "- 1" and q = "- 53" and m = 7205759403792794])
       (simp_all add: power_int_minus_divide)
qed simp_all

lemma spec_dimensions_66_720: "spec_dimensions 66 720 800 600 = (55, 600)"
  by (simp add: spec_dimensions_def floor_eq_iff)

lemma new_dimensions_400_300: "new_dimensions 400 300 800 600 = Inr (400, 300)"
  by (rule new_dimensions_unchanged) simp_all

section \<open>The computed dimensions and the exact quotients\<close>

text \<open>
  The truncated result is the floor of the exact quotient, or one less when the exact
  quotient is a whole number.
\<close>

lemma new_dimensions_landscape:
  assumes w: "0 < w" "w < 2 ^ 25" and h: "0 < h" "h < 2 ^ 25" and M: "0 < maxW" "maxW < 2 ^ 25"
    and trig: "maxW < w \<or> maxH < h" and l: "h < w"
  shows "\<exists>k. new_dimensions w h maxW maxH = Inr (maxW, k)
           \<and> (maxW * h) div w - 1 \<le> k \<and> k \<le> (maxW * h) div w
           \<and> (w dvd maxW * h \<or> k = (maxW * h) div w)"
proof -
  from landscape_height [OF w h M] obtain y
    where y: "int_div_float maxW (nearest_double (of_int w / of_int h)) = Inr (Finite y)"
      "0 \<le> y" "\<bar>y - of_int (maxW * h) / of_int w\<bar> < 1 / (2 * of_int w)"
    by blast
  have "1 < nearest_double (of_int w / of_int h)"
    using l aspect_ratio_gt_one_iff [OF w h] by simp
  then have "new_dimensions w h maxW maxH = Inr (maxW, \<lfloor>y\<rfloor>)"
    using trig y(1,2) py_truediv_small [OF w h]
    by (simp add: new_dimensions_def ebind_def py_int_def)
  then show ?thesis
    using floor_near_fraction [OF w(1) y(3)] by blast
qed

lemma new_dimensions_portrait:
  assumes w: "0 < w" "w < 2 ^ 25" and h: "0 < h" "h < 2 ^ 25" and M: "0 < maxH" "maxH < 2 ^ 25"
    and trig: "maxW < w \<or> maxH < h" and l: "\<not> h < w"
  shows "\<exists>k. new_dimensions w h maxW maxH = Inr (k, maxH)
           \<and> (maxH * w) div h - 1 \<le> k \<and> k \<le> (maxH * w) div h
           \<and> (h dvd maxH * w \<or> k = (maxH * w) div h)"
proof -
  from portrait_width [OF w h M] obtain y
    where y: "int_mul_float maxH (nearest_double (of_int w / of_int h)) = Inr (Finite y)"
      "0 \<le> y" "\<bar>y - of_int (maxH * w) / of_int h\<bar> < 1 / (2 * of_int h)"
    by blast
  have "\<not> 1 < nearest_double (of_int w / of_int h)"
    using l aspect_ratio_gt_one_iff [OF w h] by simp
  then have "new_dimensions w h maxW maxH = Inr (\<lfloor>y\<rfloor>, maxH)"
    using trig y(1,2) py_truediv_small [OF w h]
    by (simp add: new_dimensions_def ebind_def py_int_def)
  then show ?thesis
    using floor_near_fraction [OF h(1) y(3)] by blast
qed

lemma spec_dimensions_scaled:
  assumes "0 < w" "0 < h" "maxW < w \<or> maxH < h"
  shows "spec_dimensions w h maxW maxH =
           (if h < w then (maxW, (maxW * h) div w) else ((maxH * w) div h, maxH))"
proof -
  have a: "1 < (of_int w / of_int h :: rat) \<longleftrightarrow> h < w"
    using assms(2) by (simp add: pos_less_divide_eq)
  have l: "\<lfloor>(of_int maxW * of_int h / of_int w :: rat)\<rfloor> = (maxW * h) div w"
    using floor_divide_of_int_eq [of "maxW * h" w, where ?'a = rat] by simp
  have p: "\<lfloor>(of_int maxH * of_int w / of_int h :: rat)\<rfloor> = (maxH * w) div h"
    using floor_divide_of_int_eq [of "maxH * w" h, where ?'a = rat] by simp
  show ?thesis
    using assms(3) by (auto simp: spec_dimensions_def Let_def a l p)
qed

lemma div_ge_one:
  fixes a b :: int
  assumes "0 < b" and "b < a"
  shows "1 \<le> a div b" and "b dvd a \<Longrightarrow> 2 \<le> a div b"
proof -
  have "b div b \<le> a div b" using assms by (intro zdiv_mono1) simp_all
  then show "1 \<le> a div b" using assms(1) by simp
  show "2 \<le> a div b" if "b dvd a"
  proof -
    from that obtain c where c: "a = b * c" by (rule dvdE)
    then have "b * 1 < b * c" using assms(2) by simp
    then have "1 < c" using assms(1) by (simp only: mult_less_cancel_left_pos)
    then show ?thesis using c assms(1) by simp
  qed
qed

section \<open>Facts about the handler\<close>

text \<open>
  The record of a completed resize holds the dimensions the attempt returned; an
  exception in the loop ends it; the failure notification changes neither the store nor
  the table.
\<close>

lemmas collaborator_defs =
  s3_get_object_def s3_put_object_def s3_copy_object_def table_put_item_def sns_publish_def
  uuid4_call_def utcnow_call_def tick_def

lemmas handler_defs =
  lambda_handler_def process_record_def store_image_def resize_and_upload_def
  notify_success_def notify_failure_def collaborator_defs response_content_type_def
  dict_update_def Let_def

lemmas example_defs =
  example_env_def undecodable_env_def flat_image_env_def unsavable_env_def no_pillow_env_def
  failing_publish_env_def example_world_def cat_record_def missing_record_def
  no_fault_def publish_fault_def png_400_300_def

lemma resized_key_cat: "resized_key ''cat.jpg'' = ''cat_resized.jpg''"
  by (simp add: resized_key_def splitext_def)

lemma resized_key_missing: "resized_key ''missing.jpg'' = ''missing_resized.jpg''"
  by (simp add: resized_key_def splitext_def)

lemma tick_simps:
  "s3 (tick w) = s3 w" "table_items (tick w) = table_items w"
  "published (tick w) = published w" "ticks (tick w) = Suc (ticks w)"
  "tick (w\<lparr>s3 := f\<rparr>) = (tick w)\<lparr>s3 := f\<rparr>"
  "tick (w\<lparr>table_items := t\<rparr>) = (tick w)\<lparr>table_items := t\<rparr>"
  "tick (w\<lparr>published := p\<rparr>) = (tick w)\<lparr>published := p\<rparr>"
  by (simp_all add: tick_def)

lemma recorded_dimensions:
  assumes "image_open env content = Inr img" and "img_size img = (iw, ih)"
    and "new_dimensions iw ih (MAX_WIDTH env) (MAX_HEIGHT env) = Inr (nw, nh)"
    and "fst (resize_and_upload env content new_key ctype w1) = Inr x"
  shows "snd x = [(''original_width'', Num iw), (''original_height'', Num ih),
                  (''resized_width'', Num nw), (''resized_height'', Num nh)]"
  using assms
  by (auto simp: resize_and_upload_def Let_def split: sum.splits prod.splits if_splits)

lemma resized_record:
  assumes "fst (resize_and_upload env (body obj) (resized_key (object_key r))
                  (response_content_type obj) (tick w)) = Inr x"
    and "snd x = [(''original_width'', Num a), (''original_height'', Num b),
                  (''resized_width'', Num c), (''resized_height'', Num d)]"
    and "s3 w (bucket_name r, object_key r) = Some obj"
    and "fst (process_record env True r w) = Inr u"
  shows "\<exists>item. table_items (snd (process_record env True r w))
                    = table_items w @ [(DYNAMODB_TABLE env, item)] \<and>
           map_of item ''status'' = Some (Str ''resized'') \<and>
           map_of item ''original_width'' = Some (Num a) \<and>
           map_of item ''original_height'' = Some (Num b) \<and>
           map_of item ''resized_width'' = Some (Num c) \<and>
           map_of item ''resized_height'' = Some (Num d)"
proof -
  obtain rs w2 where ru: "resize_and_upload env (body obj) (resized_key (object_key r))
      (response_content_type obj) (tick w) = (Inr (rs, snd x), w2)"
    using assms(1) by (cases "resize_and_upload env (body obj) (resized_key (object_key r))
      (response_content_type obj) (tick w)") (auto simp: prod_eq_iff)
  have tw: "table_items w2 = table_items w"
    using ru by (auto simp: resize_and_upload_def s3_put_object_def tick_simps Let_def
        split: sum.splits prod.splits if_splits option.splits)
  show ?thesis
    using assms(3,4) tw
    by (auto simp: process_record_def store_image_def notify_success_def s3_get_object_def
        table_put_item_def sns_publish_def uuid4_call_def utcnow_call_def ru assms(2)
        dict_update_def Let_def tick_simps
        split: option.splits if_splits)
qed



section \<open>Claims about the dimension computation\<close>

text \<open>
  C3 states that the computed dimensions fit within the configured maxima:
  \<open>new_width \<le> maxW\<close> and \<open>new_height \<le> maxH\<close>. The code clamps by orientation, not by
  the bound that is exceeded: a 700 x 650 image under the maxima 800 x 600 is wider than
  high, so its width is set to 800 and its height to \<open>int (800 / (700 / 650)) = 742\<close>,
  above the maximum height 600.
\<close>

theorem C3_height_exceeds_maximum:
  "new_dimensions 700 650 800 600 = Inr (800, 742) \<and> (600::int) < 742"
  by (simp add: new_dimensions_700_650)

text \<open>
  C4 states that, where scaling triggers, the output is the floor of the exact quotient:
  \<open>(maxW, floor (maxW / aspect_ratio))\<close> for \<open>aspect_ratio > 1\<close>, and
  \<open>(floor (maxH * aspect_ratio), maxH)\<close> otherwise. The code computes with doubles. For a
  66 x 720 image under 800 x 600 the exact value \<open>600 * (66 / 720)\<close> is 55, the double
  product is just below 55, and the code returns the width 54.
\<close>

theorem C4_counterexample:
  "(0::int) < 66 \<and> (0::int) < 720 \<and> (600::int) < 720 \<and>
   new_dimensions 66 720 800 600 = Inr (54, 600) \<and>
   spec_dimensions 66 720 800 600 = (55, 600)"
  by (simp add: new_dimensions_66_720 spec_dimensions_66_720)

text \<open>
  C4 as amended: for sizes and maxima below \<open>2\<^sup>2\<^sup>5\<close>, where scaling triggers, the
  computation returns a result; the dimension set to its maximum is the one the exact
  rule names, and the computed dimension is the floor of the exact quotient, or one less
  than it, the latter only when the exact quotient is a whole number.
\<close>

theorem C4_dimensions_within_one_of_spec:
  assumes "0 < w" "w < 2 ^ 25" and "0 < h" "h < 2 ^ 25"
    and "0 < maxW" "maxW < 2 ^ 25" and "0 < maxH" "maxH < 2 ^ 25"
    and "maxW < w \<or> maxH < h"
  shows "\<exists>new_width new_height.
           new_dimensions w h maxW maxH = Inr (new_width, new_height) \<and>
           (if 1 < (of_int w / of_int h :: rat)
            then new_width = maxW \<and> new_width = fst (spec_dimensions w h maxW maxH) \<and>
                 (new_height = snd (spec_dimensions w h maxW maxH) \<or>
                  new_height = snd (spec_dimensions w h maxW maxH) - 1 \<and> w dvd maxW * h)
            else new_height = maxH \<and> new_height = snd (spec_dimensions w h maxW maxH) \<and>
                 (new_width = fst (spec_dimensions w h maxW maxH) \<or>
                  new_width = fst (spec_dimensions w h maxW maxH) - 1 \<and> h dvd maxH * w))"
proof (cases "h < w")
  case True
  then have a: "1 < (of_int w / of_int h :: rat)"
    using assms(3) by (simp add: pos_less_divide_eq)
  from new_dimensions_landscape [OF assms(1-6) assms(9) True] obtain k
    where k: "new_dimensions w h maxW maxH = Inr (maxW, k)"
      "(maxW * h) div w - 1 \<le> k" "k \<le> (maxW * h) div w"
      "w dvd maxW * h \<or> k = (maxW * h) div w"
    by blast
  have "k = (maxW * h) div w \<or> k = (maxW * h) div w - 1 \<and> w dvd maxW * h"
    using k(2-4) by auto
  then show ?thesis
    using k(1) a True by (simp add: spec_dimensions_scaled [OF assms(1,3,9)])
next
  case False
  then have a: "\<not> 1 < (of_int w / of_int h :: rat)"
    using assms(3) by (simp add: pos_less_divide_eq)
  from new_dimensions_portrait [OF assms(1-4) assms(7-9) False] obtain k
    where k: "new_dimensions w h maxW maxH = Inr (k, maxH)"
      "(maxH * w) div h - 1 \<le> k" "k \<le> (maxH * w) div h"
      "h dvd maxH * w \<or> k = (maxH * w) div h"
    by blast
  have "k = (maxH * w) div h \<or> k = (maxH * w) div h - 1 \<and> h dvd maxH * w"
    using k(2-4) by auto
  then show ?thesis
    using k(1) a False by (simp add: spec_dimensions_scaled [OF assms(1,3,9)])
qed

text \<open>The amended C4 at the 66 x 720 image: the hypotheses hold there.\<close>

theorem C4_witness:
  "(0::int) < 66 \<and> (66::int) < 2 ^ 25 \<and> (0::int) < 720 \<and> (720::int) < 2 ^ 25 \<and>
   (800::int) < 2 ^ 25 \<and> (600::int) < 2 ^ 25 \<and> (600::int) < 720 \<and>
   (\<exists>new_width new_height.
      new_dimensions 66 720 800 600 = Inr (new_width, new_height) \<and>
      new_height = 600 \<and> new_height = snd (spec_dimensions 66 720 800 600) \<and>
      (new_width = fst (spec_dimensions 66 720 800 600) \<or>
       new_width = fst (spec_dimensions 66 720 800 600) - 1 \<and> (720::int) dvd 600 * 66))"
  using C4_dimensions_within_one_of_spec [of 66 720 800 600] by simp

text \<open>
  C6 states that, where scaling triggers, neither computed dimension is zero. The code
  has no guard: a 1000 x 1 image under 800 x 600 gets the height \<open>int (800 / 1000) = 0\<close>.
\<close>

theorem C6_counterexample:
  "(0::int) < 1000 \<and> (0::int) < 1 \<and> (800::int) < 1000 \<and>
   new_dimensions 1000 1 800 600 = Inr (800, 0)"
  by (simp add: new_dimensions_1000_1)

text \<open>
  C6 as amended: for sizes and maxima below \<open>2\<^sup>2\<^sup>5\<close>, where scaling triggers and the
  exact value of the computed dimension is greater than 1 (\<open>maxW * h / w\<close> for an image
  wider than high, \<open>maxH * w / h\<close> otherwise), both computed dimensions are at least 1.
\<close>

theorem C6_positive_unless_extreme:
  assumes "0 < w" "w < 2 ^ 25" and "0 < h" "h < 2 ^ 25"
    and "0 < maxW" "maxW < 2 ^ 25" and "0 < maxH" "maxH < 2 ^ 25"
    and "maxW < w \<or> maxH < h"
    and "if h < w then w < maxW * h else h < maxH * w"
  shows "\<exists>new_width new_height.
           new_dimensions w h maxW maxH = Inr (new_width, new_height) \<and>
           1 \<le> new_width \<and> 1 \<le> new_height"
proof (cases "h < w")
  case True
  then have a: "w < maxW * h" using assms(10) by simp
  from new_dimensions_landscape [OF assms(1-6) assms(9) True] obtain k
    where k: "new_dimensions w h maxW maxH = Inr (maxW, k)"
      "(maxW * h) div w - 1 \<le> k" "w dvd maxW * h \<or> k = (maxW * h) div w"
    by blast
  have "1 \<le> k"
    using k(2,3) div_ge_one [OF assms(1) a] by auto
  then show ?thesis using k(1) assms(5) by simp
next
  case False
  then have a: "h < maxH * w" using assms(10) by simp
  from new_dimensions_portrait [OF assms(1-4) assms(7-9) False] obtain k
    where k: "new_dimensions w h maxW maxH = Inr (k, maxH)"
      "(maxH * w) div h - 1 \<le> k" "h dvd maxH * w \<or> k = (maxH * w) div h"
    by blast
  have "1 \<le> k"
    using k(2,3) div_ge_one [OF assms(3) a] by auto
  then show ?thesis using k(1) assms(7) by simp
qed

text \<open>The amended C6 at a 1600 x 1200 image under 800 x 600.\<close>

theorem C6_witness:
  "(0::int) < 1600 \<and> (1600::int) < 2 ^ 25 \<and> (0::int) < 1200 \<and> (1200::int) < 2 ^ 25 \<and>
   (800::int) < 1600 \<and> (1600::int) < 800 * 1200 \<and>
   (\<exists>new_width new_height.
      new_dimensions 1600 1200 800 600 = Inr (new_width, new_height) \<and>
      1 \<le> new_width \<and> 1 \<le> new_height)"
  using C6_positive_unless_extreme [of 1600 1200 800 600] by simp

text \<open>
  C10: at 700 x 650 with maxima 800 x 600 the width is within its maximum, the height is
  not, the aspect ratio is greater than 1, and the computed width, 800, is greater than
  the original width: the computation can enlarge a dimension.
\<close>

theorem C10_width_enlarged:
  "\<exists>aspect_ratio new_width new_height.
     py_truediv 700 650 = Inr aspect_ratio \<and> 1 < aspect_ratio
     \<and> (700::int) \<le> 800 \<and> (600::int) < 650
     \<and> new_dimensions 700 650 800 600 = Inr (new_width, new_height)
     \<and> 700 < new_width"
proof -
  have "h < w \<Longrightarrow> 1 < nearest_double (of_int w / of_int h)"
    if "0 < w" "w < 2 ^ 25" "0 < h" "h < 2 ^ 25" for w h :: int
    using aspect_ratio_gt_one_iff [OF that] by simp
  from this [of 700 650] have "1 < nearest_double (of_int 700 / of_int 650)" by simp
  moreover have "py_truediv 700 650 = Inr (nearest_double (of_int 700 / of_int 650))"
    by (rule py_truediv_small) simp_all
  ultimately show ?thesis
    using new_dimensions_700_650 by simp
qed

section \<open>Claims about the handler\<close>

text \<open>
  C1 states that, when the resize attempt raises while Pillow is available, the original
  is copied to the destination, the record has \<open>status = copied\<close>, \<open>resized_size =
  original_size\<close> and no dimensions, and only the success notification is sent. The code
  does all of it but the status: line 137 derives \<open>status\<close> from \<open>pillow_available\<close>
  alone, so the record of a copied object says \<open>resized\<close>. Here the object cannot be
  decoded.
\<close>

theorem C1_fallback_recorded_as_resized:
  "case lambda_handler undecodable_env [cat_record] example_world of
     (result, w') \<Rightarrow>
       result = Inr \<lparr>statusCode = 200,
                     body_message = ''Image processing completed successfully'',
                     body_pillow_available = True\<rparr> \<and>
       map_option body (s3 w' (''resized'', ''cat_resized.jpg'')) = Some [1, 2, 3] \<and>
       map (\<lambda>(table, item). (map_of item ''status'', map_of item ''original_size'',
                               map_of item ''resized_size'', map_of item ''original_width''))
         (table_items w')
         = [(Some (Str ''resized''), Some (Num 3), Some (Num 3), None)] \<and>
       map (\<lambda>(topic, subject, msg). subject) (published w') = [''Image Processing Complete'']"
  by (simp add: handler_defs example_defs resized_key_cat)

text \<open>
  C2 states that a record holds the dimensions if and only if its status is
  \<open>resized\<close>. A 1000 x 1 image gets the dimensions 800 x 0, the resize raises, the
  original is copied, and the record written has the status \<open>resized\<close> and none of the
  four dimension fields.
\<close>

theorem C2_resized_status_without_dimensions:
  "case lambda_handler flat_image_env [cat_record] example_world of
     (result, w') \<Rightarrow>
       result = Inr \<lparr>statusCode = 200,
                     body_message = ''Image processing completed successfully'',
                     body_pillow_available = True\<rparr> \<and>
       map (\<lambda>(table, item). (map_of item ''status'', map_of item ''original_width'',
                               map_of item ''original_height'', map_of item ''resized_width'',
                               map_of item ''resized_height''))
         (table_items w')
         = [(Some (Str ''resized''), None, None, None, None)]"
  by (simp add: handler_defs example_defs resized_key_cat new_dimensions_1000_1)

text \<open>
  C5 states that sizes within the maxima are returned unchanged, and that with Pillow
  available the record then has the status \<open>resized\<close> and these dimensions. Two inputs
  show what the statement leaves out. The quotient \<open>original_width / original_height\<close>
  is computed before the comparison and raises OverflowError when it is out of the range
  of a double. And a 400 x 300 image that cannot be saved again is copied: its record
  holds no dimensions.
\<close>

theorem C5_counterexample:
  "(0::int) < 2 ^ 1024 \<and> (0::int) < 1 \<and> (2::int) ^ 1024 \<le> 2 ^ 1024 \<and> (1::int) \<le> 1 \<and>
   new_dimensions (2 ^ 1024) 1 (2 ^ 1024) 1 = Inl OverflowError \<and>
   image_open unsavable_env [1, 2, 3] = Inr png_400_300 \<and>
   img_size png_400_300 = (400, 300) \<and>
   (case process_record unsavable_env True cat_record example_world of
      (result, w') \<Rightarrow>
        result = Inr () \<and>
        map (\<lambda>(table, item). (map_of item ''status'', map_of item ''original_width''))
          (table_items w')
          = [(Some (Str ''resized''), None)])"
proof -
  have "new_dimensions (2 ^ 1024) 1 (2 ^ 1024) 1 = Inl OverflowError"
    by (rule new_dimensions_overflow)
  moreover have "case process_record unsavable_env True cat_record example_world of
      (result, w') \<Rightarrow>
        result = Inr () \<and>
        map (\<lambda>(table, item). (map_of item ''status'', map_of item ''original_width''))
          (table_items w')
          = [(Some (Str ''resized''), None)]"
    by (simp add: handler_defs example_defs resized_key_cat new_dimensions_400_300)
  ultimately show ?thesis
    by (simp add: example_defs)
qed

text \<open>
  C5 as amended: for positive sizes within positive maxima whose quotient is within the
  range of a double (\<open>iw \<le> 2\<^sup>1\<^sup>0\<^sup>2\<^sup>3 * ih\<close>), the computed dimensions are the sizes
  themselves; and when Pillow is available, the object decodes to these sizes, the resize
  attempt does not raise and the object is processed, the record written has the status
  \<open>resized\<close> and these sizes as original and as resized dimensions.
\<close>

theorem C5_within_bounds_unchanged:
  assumes "0 < iw" and "0 < ih" and "0 < MAX_WIDTH env" and "0 < MAX_HEIGHT env"
    and "iw \<le> MAX_WIDTH env" and "ih \<le> MAX_HEIGHT env"
    and "iw \<le> 2 ^ 1023 * ih"
    and "s3 w (bucket_name r, object_key r) = Some obj"
    and "image_open env (body obj) = Inr img" and "img_size img = (iw, ih)"
    and "fst (resize_and_upload env (body obj) (resized_key (object_key r))
                (response_content_type obj) (tick w)) = Inr x"
    and "fst (process_record env True r w) = Inr u"
  shows "new_dimensions iw ih (MAX_WIDTH env) (MAX_HEIGHT env) = Inr (iw, ih) \<and>
         (\<exists>item. table_items (snd (process_record env True r w))
                    = table_items w @ [(DYNAMODB_TABLE env, item)] \<and>
                  map_of item ''status'' = Some (Str ''resized'') \<and>
                  map_of item ''original_width'' = Some (Num iw) \<and>
                  map_of item ''original_height'' = Some (Num ih) \<and>
                  map_of item ''resized_width'' = Some (Num iw) \<and>
                  map_of item ''resized_height'' = Some (Num ih))"
proof -
  have d: "new_dimensions iw ih (MAX_WIDTH env) (MAX_HEIGHT env) = Inr (iw, ih)"
    using assms(1,2,5,6,7) by (rule new_dimensions_unchanged)
  from recorded_dimensions [OF assms(9,10) d assms(11)] resized_record [OF assms(11) _ assms(8,12)]
  show ?thesis using d by simp
qed

text \<open>
  The amended C5 at the third scenario of the specification: a 400 x 300 image under
  800 x 600.
\<close>

theorem C5_witness:
  "(0::int) < 400 \<and> (0::int) < 300 \<and> 400 \<le> MAX_WIDTH example_env \<and>
   300 \<le> MAX_HEIGHT example_env \<and>
   fst (process_record example_env True cat_record example_world) = Inr () \<and>
   new_dimensions 400 300 (MAX_WIDTH example_env) (MAX_HEIGHT example_env) = Inr (400, 300) \<and>
   (\<exists>item. table_items (snd (process_record example_env True cat_record example_world))
              = table_items example_world @ [(DYNAMODB_TABLE example_env, item)] \<and>
            map_of item ''status'' = Some (Str ''resized'') \<and>
            map_of item ''original_width'' = Some (Num 400) \<and>
            map_of item ''original_height'' = Some (Num 300) \<and>
            map_of item ''resized_width'' = Some (Num 400) \<and>
            map_of item ''resized_height'' = Some (Num 300))"
proof -
  define obj :: s3_object where "obj = \<lparr>body = [1, 2, 3], content_type = Some ''image/png''\<rparr>"
  have m: "MAX_WIDTH example_env = 800" "MAX_HEIGHT example_env = 600"
    by (simp_all add: example_defs)
  have 1: "s3 example_world (bucket_name cat_record, object_key cat_record) = Some obj"
    by (simp add: example_defs obj_def)
  have 2: "image_open example_env (body obj) = Inr png_400_300"
    by (simp add: example_env_def)
  have 3: "img_size png_400_300 = (400, 300)"
    by (simp add: png_400_300_def)
  have 4: "fst (resize_and_upload example_env (body obj) (resized_key (object_key cat_record))
                  (response_content_type obj) (tick example_world))
             = Inr (2, [(''original_width'', Num 400), (''original_height'', Num 300),
                        (''resized_width'', Num 400), (''resized_height'', Num 300)])"
    by (simp add: handler_defs example_defs obj_def new_dimensions_400_300)
  have 5: "fst (process_record example_env True cat_record example_world) = Inr ()"
    by (simp add: handler_defs example_defs resized_key_cat new_dimensions_400_300)
  from C5_within_bounds_unchanged [of 400 300 example_env example_world cat_record obj
      png_400_300 _ "()", OF _ _ _ _ _ _ _ 1 2 3 4 5] 5
  show ?thesis by (simp add: m)
qed

text \<open>
  C7: in an invocation where Pillow cannot be imported, every object that is processed is
  copied: the destination object has the bytes of the source object, and the record
  written for it has \<open>status = copied\<close>, \<open>resized_size = original_size\<close> and none of the
  four dimension fields. The handler runs \<open>process_record\<close> with the flag
  \<open>pillow_importable env\<close> on every record of the event, from the world the records
  before it left; the statement holds from any world.
\<close>

theorem C7_unavailable_copies:
  assumes "\<not> pillow_importable env"
    and "fst (process_record env (pillow_importable env) r w) = Inr u"
  shows "\<exists>obj copy item.
           s3 w (bucket_name r, object_key r) = Some obj \<and>
           s3 (snd (process_record env (pillow_importable env) r w))
              (RESIZED_BUCKET env, resized_key (object_key r)) = Some copy \<and>
           body copy = body obj \<and>
           table_items (snd (process_record env (pillow_importable env) r w))
             = table_items w @ [(DYNAMODB_TABLE env, item)] \<and>
           map_of item ''status'' = Some (Str ''copied'') \<and>
           map_of item ''original_size'' = Some (Num (int (length (body obj)))) \<and>
           map_of item ''resized_size'' = Some (Num (int (length (body obj)))) \<and>
           map_of item ''original_width'' = None \<and> map_of item ''original_height'' = None \<and>
           map_of item ''resized_width'' = None \<and> map_of item ''resized_height'' = None"
  using assms
  by (auto simp: process_record_def store_image_def notify_success_def collaborator_defs
      Let_def split: option.splits if_splits)

text \<open>C7 on the example object, with Pillow missing.\<close>

theorem C7_witness:
  "\<not> pillow_importable no_pillow_env \<and>
   fst (process_record no_pillow_env (pillow_importable no_pillow_env) cat_record example_world)
     = Inr () \<and>
   (\<exists>obj copy item.
      s3 example_world (bucket_name cat_record, object_key cat_record) = Some obj \<and>
      s3 (snd (process_record no_pillow_env (pillow_importable no_pillow_env) cat_record
                 example_world))
         (RESIZED_BUCKET no_pillow_env, resized_key (object_key cat_record)) = Some copy \<and>
      body copy = body obj \<and>
      table_items (snd (process_record no_pillow_env (pillow_importable no_pillow_env)
                          cat_record example_world))
        = table_items example_world @ [(DYNAMODB_TABLE no_pillow_env, item)] \<and>
      map_of item ''status'' = Some (Str ''copied'') \<and>
      map_of item ''resized_size'' = Some (Num (int (length (body obj)))) \<and>
      map_of item ''original_width'' = None)"
proof -
  have 1: "\<not> pillow_importable no_pillow_env" by (simp add: example_defs)
  have 2: "fst (process_record no_pillow_env (pillow_importable no_pillow_env) cat_record
                  example_world) = Inr ()"
    by (simp add: handler_defs example_defs resized_key_cat)
  from C7_unavailable_copies [OF 1 2] 1 2
  show ?thesis by blast
qed

text \<open>
  C8 states that a failure of the publish call is swallowed on the success path as on
  the failure path. The failure path (lines 210 to 217) does catch it. The success path
  (line 187) does not: with a topic configured and a publish call that raises, the object
  is copied and recorded, and the handler then raises the publish error instead of
  returning its result. (For a missing object, in the same environment, the handler
  raises the error of the read: the publish error of the failure path is dropped.)
\<close>

theorem C8_publish_failure_escalates:
  "(case lambda_handler failing_publish_env [cat_record] example_world of
      (result, w') \<Rightarrow>
        result = Inl (ExternalError ''publish failed'') \<and>
        map_option body (s3 w' (''resized'', ''cat_resized.jpg'')) = Some [1, 2, 3] \<and>
        map (\<lambda>(table, item). map_of item ''status'') (table_items w') = [Some (Str ''copied'')] \<and>
        published w' = []) \<and>
   (case lambda_handler failing_publish_env [missing_record] example_world of
      (result, w') \<Rightarrow> result = Inl (ExternalError ''NoSuchKey'') \<and> published w' = [])"
  by (simp add: handler_defs example_defs resized_key_cat resized_key_missing)





end
